theory Spec2Isabelle
  imports Main "HOL-Library.Word"
begin

unbundle bit_operations_syntax

section \<open>Texts and byte strings\<close>

text \<open>
  A Python \<^verbatim>\<open>str\<close> is a sequence of Unicode code points; it is modelled as the list
  of its code points. Python has no code point from \<open>0x110000\<close> on, so such a number
  never occurs in a text. An encoded text and the input of MD5 are lists of byte values
  (numbers below 256). \<open>lit\<close> turns an ASCII literal into the text it denotes.
\<close>

type_synonym pystr = "nat list"

definition lit :: "string \<Rightarrow> pystr" where
  "lit s = map of_char s"

datatype py_exn = UnicodeEncodeError | ValueError | OSError | Raised pystr

text \<open>
  \<^verbatim>\<open>s.encode()\<close>: UTF-8. The lone surrogates \<open>0xD800\<close> to \<open>0xDFFF\<close> are code points
  a Python text may hold and that UTF-8 refuses: \<^verbatim>\<open>'\ud800'.encode()\<close> raises
  \<^verbatim>\<open>UnicodeEncodeError\<close>.
\<close>

definition utf8_char :: "nat \<Rightarrow> py_exn + nat list" where
  "utf8_char c =
     (if c < 0x80 then Inr [c]
      else if c < 0x800 then Inr [0xC0 + c div 64, 0x80 + c mod 64]
      else if c < 0xD800 \<or> (0xE000 \<le> c \<and> c < 0x10000)
        then Inr [0xE0 + c div 4096, 0x80 + c div 64 mod 64, 0x80 + c mod 64]
      else if 0x10000 \<le> c \<and> c < 0x110000
        then Inr [0xF0 + c div 262144, 0x80 + c div 4096 mod 64, 0x80 + c div 64 mod 64,
                  0x80 + c mod 64]
      else Inl UnicodeEncodeError)"

fun encode :: "pystr \<Rightarrow> py_exn + nat list" where
  "encode [] = Inr []"
| "encode (c # cs) =
     (case utf8_char c of
        Inl e \<Rightarrow> Inl e
      | Inr bs \<Rightarrow> (case encode cs of Inl e \<Rightarrow> Inl e | Inr rest \<Rightarrow> Inr (bs @ rest)))"

section \<open>MD5 (\<^verbatim>\<open>hashlib.md5(...).hexdigest()\<close>)\<close>

text \<open>
  The library function the cache is built on, after RFC 1321. A 32-bit word is a natural
  number below \<open>2^32\<close>; every addition is reduced modulo \<open>2^32\<close>. Each entry of
  \<open>md5_table\<close> is one of the 64 operations: its round, the index of the message word it
  reads, its rotation and its additive constant.
\<close>

type_synonym u32 = nat

definition add32 :: "u32 \<Rightarrow> u32 \<Rightarrow> u32" where
  "add32 x y = (x + y) mod 4294967296"

definition not32 :: "u32 \<Rightarrow> u32" where
  "not32 x = 4294967295 - x mod 4294967296"

definition rotl32 :: "u32 \<Rightarrow> nat \<Rightarrow> u32" where
  "rotl32 x s = (x * 2 ^ s) mod 4294967296 + x div 2 ^ (32 - s)"

datatype md5_round = RoundF | RoundG | RoundH | RoundI

fun md5_mix :: "md5_round \<Rightarrow> u32 \<Rightarrow> u32 \<Rightarrow> u32 \<Rightarrow> u32" where
  "md5_mix RoundF b c d = (b AND c) OR (not32 b AND d)"
| "md5_mix RoundG b c d = (d AND b) OR (not32 d AND c)"
| "md5_mix RoundH b c d = b XOR c XOR d"
| "md5_mix RoundI b c d = c XOR (b OR not32 d)"

definition md5_table :: "(md5_round \<times> nat \<times> nat \<times> u32) list" where
  "md5_table = [
     (RoundF, 0, 7, 0xd76aa478), (RoundF, 1, 12, 0xe8c7b756), (RoundF, 2, 17, 0x242070db), (RoundF, 3, 22, 0xc1bdceee),
     (RoundF, 4, 7, 0xf57c0faf), (RoundF, 5, 12, 0x4787c62a), (RoundF, 6, 17, 0xa8304613), (RoundF, 7, 22, 0xfd469501),
     (RoundF, 8, 7, 0x698098d8), (RoundF, 9, 12, 0x8b44f7af), (RoundF, 10, 17, 0xffff5bb1), (RoundF, 11, 22, 0x895cd7be),
     (RoundF, 12, 7, 0x6b901122), (RoundF, 13, 12, 0xfd987193), (RoundF, 14, 17, 0xa679438e), (RoundF, 15, 22, 0x49b40821),
     (RoundG, 1, 5, 0xf61e2562), (RoundG, 6, 9, 0xc040b340), (RoundG, 11, 14, 0x265e5a51), (RoundG, 0, 20, 0xe9b6c7aa),
     (RoundG, 5, 5, 0xd62f105d), (RoundG, 10, 9, 0x02441453), (RoundG, 15, 14, 0xd8a1e681), (RoundG, 4, 20, 0xe7d3fbc8),
     (RoundG, 9, 5, 0x21e1cde6), (RoundG, 14, 9, 0xc33707d6), (RoundG, 3, 14, 0xf4d50d87), (RoundG, 8, 20, 0x455a14ed),
     (RoundG, 13, 5, 0xa9e3e905), (RoundG, 2, 9, 0xfcefa3f8), (RoundG, 7, 14, 0x676f02d9), (RoundG, 12, 20, 0x8d2a4c8a),
     (RoundH, 5, 4, 0xfffa3942), (RoundH, 8, 11, 0x8771f681), (RoundH, 11, 16, 0x6d9d6122), (RoundH, 14, 23, 0xfde5380c),
     (RoundH, 1, 4, 0xa4beea44), (RoundH, 4, 11, 0x4bdecfa9), (RoundH, 7, 16, 0xf6bb4b60), (RoundH, 10, 23, 0xbebfbc70),
     (RoundH, 13, 4, 0x289b7ec6), (RoundH, 0, 11, 0xeaa127fa), (RoundH, 3, 16, 0xd4ef3085), (RoundH, 6, 23, 0x04881d05),
     (RoundH, 9, 4, 0xd9d4d039), (RoundH, 12, 11, 0xe6db99e5), (RoundH, 15, 16, 0x1fa27cf8), (RoundH, 2, 23, 0xc4ac5665),
     (RoundI, 0, 6, 0xf4292244), (RoundI, 7, 10, 0x432aff97), (RoundI, 14, 15, 0xab9423a7), (RoundI, 5, 21, 0xfc93a039),
     (RoundI, 12, 6, 0x655b59c3), (RoundI, 3, 10, 0x8f0ccc92), (RoundI, 10, 15, 0xffeff47d), (RoundI, 1, 21, 0x85845dd1),
     (RoundI, 8, 6, 0x6fa87e4f), (RoundI, 15, 10, 0xfe2ce6e0), (RoundI, 6, 15, 0xa3014314), (RoundI, 13, 21, 0x4e0811a1),
     (RoundI, 4, 6, 0xf7537e82), (RoundI, 11, 10, 0xbd3af235), (RoundI, 2, 15, 0x2ad7d2bb), (RoundI, 9, 21, 0xeb86d391)]"

fun md5_step :: "u32 list \<Rightarrow> u32 \<times> u32 \<times> u32 \<times> u32 \<Rightarrow> md5_round \<times> nat \<times> nat \<times> u32
    \<Rightarrow> u32 \<times> u32 \<times> u32 \<times> u32" where
  "md5_step m (a, b, c, d) (r, g, s, k) =
     (d, add32 b (rotl32 (add32 (add32 (add32 (md5_mix r b c d) a) k) (m ! g)) s), b, c)"

fun le_word :: "nat list \<Rightarrow> nat" where
  "le_word [] = 0"
| "le_word (x # xs) = x + 256 * le_word xs"

fun chunks :: "nat \<Rightarrow> 'a list \<Rightarrow> 'a list list" where
  "chunks n [] = []"
| "chunks n (x # xs) = (if n = 0 then [] else take n (x # xs) # chunks n (drop n (x # xs)))"

fun md5_block :: "u32 \<times> u32 \<times> u32 \<times> u32 \<Rightarrow> nat list \<Rightarrow> u32 \<times> u32 \<times> u32 \<times> u32" where
  "md5_block (a0, b0, c0, d0) blk =
     (case foldl (md5_step (map le_word (chunks 4 blk))) (a0, b0, c0, d0) md5_table of
        (a, b, c, d) \<Rightarrow> (add32 a0 a, add32 b0 b, add32 c0 c, add32 d0 d))"

definition le_bytes4 :: "nat \<Rightarrow> nat list" where
  "le_bytes4 x = [x mod 256, x div 256 mod 256, x div 65536 mod 256, x div 16777216 mod 256]"

definition le_bytes8 :: "nat \<Rightarrow> nat list" where
  "le_bytes8 x = le_bytes4 (x mod 4294967296) @ le_bytes4 (x div 4294967296 mod 4294967296)"

definition md5_pad :: "nat list \<Rightarrow> nat list" where
  "md5_pad msg = msg @ [128] @ replicate ((119 - length msg mod 64) mod 64) 0
                  @ le_bytes8 (8 * length msg)"

definition md5_digest :: "nat list \<Rightarrow> nat list" where
  "md5_digest msg =
     (case foldl md5_block (0x67452301, 0xefcdab89, 0x98badcfe, 0x10325476)
             (chunks 64 (md5_pad msg)) of
        (a, b, c, d) \<Rightarrow> le_bytes4 a @ le_bytes4 b @ le_bytes4 c @ le_bytes4 d)"

definition hex_digit :: "nat \<Rightarrow> nat" where
  "hex_digit n = (if n < 10 then 48 + n else 87 + n)"

definition hex_byte :: "nat \<Rightarrow> pystr" where
  "hex_byte b = [hex_digit (b div 16), hex_digit (b mod 16)]"

definition hexdigest :: "nat list \<Rightarrow> pystr" where
  "hexdigest msg = concat (map hex_byte (md5_digest msg))"

text \<open>\<^verbatim>\<open>hashlib.md5(s.encode()).hexdigest()\<close>, the expression the source digests every text with.\<close>

definition md5_hex :: "pystr \<Rightarrow> py_exn + pystr" where
  "md5_hex s = (case encode s of Inl e \<Rightarrow> Inl e | Inr bs \<Rightarrow> Inr (hexdigest bs))"

section \<open>Python values and their text form\<close>

text \<open>
  The shapes \<^verbatim>\<open>recursive_hash\<close> tells apart. A float is given by the text \<^verbatim>\<open>str\<close>
  prints for it. An object with a \<^verbatim>\<open>__dict__\<close> is the name of its class and the value of
  that attribute; \<open>POther\<close> is any value of no other shape (\<^verbatim>\<open>None\<close>, a set, an object
  with slots). A dictionary is the list of its entries in iteration order. Containers of
  Python can contain themselves, so the type is coinductive.
\<close>

codatatype pyval =
    PInt int
  | PFloat pystr
  | PStr pystr
  | PBool bool
  | PBytes "8 word list"
  | PList "pyval list"
  | PTuple "pyval list"
  | PDict "(pyval \<times> pyval) list"
  | PObject pystr pyval
  | POther

fun dec :: "nat \<Rightarrow> pystr" where
  "dec n = (if n < 10 then [48 + n] else dec (n div 10) @ [48 + n mod 10])"

declare dec.simps [simp del]

definition str_int :: "int \<Rightarrow> pystr" where
  "str_int i = (if i < 0 then 45 # dec (nat (- i)) else dec (nat i))"

text \<open>
  \<^verbatim>\<open>str(value)\<close> of an integer: \<open>str_int\<close> is the decimal text. From CPython 3.11 on the
  conversion raises \<^verbatim>\<open>ValueError\<close> when the integer has more decimal digits than
  \<^verbatim>\<open>sys.get_int_max_str_digits()\<close>, which is 4300 unless the process sets another limit.
\<close>

definition int_max_str_digits :: nat where
  "int_max_str_digits = 4300"

definition py_str_int :: "int \<Rightarrow> py_exn + pystr" where
  "py_str_int i =
     (if int_max_str_digits < length (dec (nat \<bar>i\<bar>)) then Inl ValueError else Inr (str_int i))"

definition str_bool :: "bool \<Rightarrow> pystr" where
  "str_bool b = (if b then lit ''True'' else lit ''False'')"

definition bytes_quote :: "8 word list \<Rightarrow> nat" where
  "bytes_quote bs = (if 39 \<in> set bs \<and> 34 \<notin> set bs then 34 else 39)"

definition bytes_escape :: "nat \<Rightarrow> nat \<Rightarrow> pystr" where
  "bytes_escape q c =
     (if c = q \<or> c = 92 then [92, c]
      else if c = 9 then [92, 116]
      else if c = 10 then [92, 110]
      else if c = 13 then [92, 114]
      else if c < 32 \<or> 127 \<le> c then [92, 120, hex_digit (c div 16), hex_digit (c mod 16)]
      else [c])"

definition str_bytes :: "8 word list \<Rightarrow> pystr" where
  "str_bytes bs =
     [98, bytes_quote bs] @ concat (map (\<lambda>b. bytes_escape (bytes_quote bs) (unat b)) bs)
       @ [bytes_quote bs]"

section \<open>The fingerprint: \<^verbatim>\<open>recursive_hash\<close>\<close>

definition MAX_DEPTH :: nat where
  "MAX_DEPTH = 6"

text \<open>The list comprehensions stop at the first element that raises.\<close>

fun collect :: "('e + 'a) list \<Rightarrow> 'e + 'a list" where
  "collect [] = Inr []"
| "collect (x # xs) =
     (case x of
        Inl e \<Rightarrow> Inl e
      | Inr y \<Rightarrow> (case collect xs of Inl e \<Rightarrow> Inl e | Inr ys \<Rightarrow> Inr (y # ys)))"

text \<open>
  \<^verbatim>\<open>key in ignore_params\<close>, for a list of names: only a text is equal to a name.
\<close>

definition py_in :: "pyval \<Rightarrow> pystr list \<Rightarrow> bool" where
  "py_in key names = (case key of PStr s \<Rightarrow> s \<in> set names | _ \<Rightarrow> False)"

function recursive_hash :: "pyval \<Rightarrow> nat \<Rightarrow> pystr list \<Rightarrow> py_exn + pystr" where
  "recursive_hash v depth ignore_params =
     (if depth > MAX_DEPTH then md5_hex (lit ''max_depth_reached'')
      else (case v of
          PInt i \<Rightarrow> (case py_str_int i of Inl e \<Rightarrow> Inl e | Inr s \<Rightarrow> md5_hex s)
        | PFloat t \<Rightarrow> md5_hex t
        | PStr s \<Rightarrow> md5_hex s
        | PBool b \<Rightarrow> md5_hex (str_bool b)
        | PBytes bs \<Rightarrow> md5_hex (str_bytes bs)
        | PList items \<Rightarrow>
            (case collect (map (\<lambda>item. recursive_hash item (depth + 1) ignore_params) items) of
               Inl e \<Rightarrow> Inl e
             | Inr hs \<Rightarrow> md5_hex (concat hs))
        | PTuple items \<Rightarrow>
            (case collect (map (\<lambda>item. recursive_hash item (depth + 1) ignore_params) items) of
               Inl e \<Rightarrow> Inl e
             | Inr hs \<Rightarrow> md5_hex (concat hs))
        | PDict entries \<Rightarrow>
            (case collect (map (\<lambda>entry.
                     (case recursive_hash (fst entry) (depth + 1) ignore_params of
                        Inl e \<Rightarrow> Inl e
                      | Inr hk \<Rightarrow>
                          (case recursive_hash (snd entry) (depth + 1) ignore_params of
                             Inl e \<Rightarrow> Inl e
                           | Inr hv \<Rightarrow> Inr (hk @ hv))))
                   (filter (\<lambda>entry. \<not> py_in (fst entry) ignore_params) entries)) of
               Inl e \<Rightarrow> Inl e
             | Inr hs \<Rightarrow> md5_hex (concat hs))
        | PObject cls d \<Rightarrow>
            (if cls \<notin> set ignore_params then recursive_hash d (depth + 1) ignore_params
             else md5_hex (lit ''unknown''))
        | POther \<Rightarrow> md5_hex (lit ''unknown'')))"
  by pat_completeness auto
termination
  by (relation "measure (\<lambda>(v, depth, ignore_params). Suc MAX_DEPTH - depth)") auto

declare recursive_hash.simps [simp del]

text \<open>\<^verbatim>\<open>hash_code\<close>: the digest of a source text.\<close>

definition hash_code :: "pystr \<Rightarrow> py_exn + pystr" where
  "hash_code code = md5_hex code"

section \<open>The cache controller: \<^verbatim>\<open>file_cache\<close>\<close>

text \<open>
  What the wrapper reads of the wrapped function: \<^verbatim>\<open>__module__\<close>, \<^verbatim>\<open>__name__\<close>, the text
  \<^verbatim>\<open>inspect.getsource\<close> returns, the names of its positional parameters
  (\<^verbatim>\<open>co_varnames[:co_argcount]\<close> of \<^verbatim>\<open>_func\<close>), and what a call of it with positional and
  named arguments returns or raises.
\<close>

record pyfunc =
  fn_module :: pystr
  fn_name :: pystr
  fn_source :: pystr
  fn_args_names :: "pystr list"
  fn_body :: "pyval list \<Rightarrow> (pystr \<times> pyval) list \<Rightarrow> py_exn + pyval"

text \<open>
  The state a call works on: the files of the cache directory by path, the messages given
  to \<^verbatim>\<open>logger.info\<close>, the lines printed, and a counter of the runs of the wrapped function's
  body (the observer of the specification's side-effecting counter). A file holds the
  pickle of a value, which \<^verbatim>\<open>pickle.load\<close> returns as an equal value, or bytes that are no
  pickle (an empty, truncated or overwritten file).
\<close>

datatype blob = Pickled pyval | Corrupt

record world =
  files :: "pystr \<rightharpoonup> blob"
  logged :: "pystr list"
  printed :: "pystr list"
  executions :: nat

text \<open>
  What the environment does to one call: whether \<^verbatim>\<open>os.makedirs\<close> raises, whether the
  \<^verbatim>\<open>stat\<close> under \<^verbatim>\<open>os.path.exists\<close> fails (which then answers \<^verbatim>\<open>False\<close>), whether opening
  the file for reading raises, whether \<^verbatim>\<open>pickle.load\<close> raises on a well-formed pickle,
  whether opening the file for writing raises, and whether \<^verbatim>\<open>pickle.dump\<close> raises (the result
  cannot be pickled, the disk is full), which leaves the file opened and truncated;
  \<open>write_error\<close> is the text \<^verbatim>\<open>str(e)\<close> of the exception a failed write raises.
\<close>

record faults =
  makedirs_fails :: bool
  stat_fails :: bool
  open_rb_fails :: bool
  load_fails :: bool
  open_wb_fails :: bool
  dump_fails :: bool
  write_error :: pystr

definition no_faults :: faults where
  "no_faults = \<lparr>makedirs_fails = False, stat_fails = False, open_rb_fails = False,
                 load_fails = False, open_wb_fails = False, dump_fails = False,
                 write_error = []\<rparr>"

definition new_world :: world where
  "new_world = \<lparr>files = Map.empty, logged = [], printed = [], executions = 0\<rparr>"

text \<open>A dictionary keyed by names: \<^verbatim>\<open>d.pop(param, None)\<close> and \<^verbatim>\<open>d[k] = v\<close>.\<close>

definition dict_pop :: "pystr \<Rightarrow> (pystr \<times> pyval) list \<Rightarrow> (pystr \<times> pyval) list" where
  "dict_pop param d = filter (\<lambda>entry. fst entry \<noteq> param) d"

fun dict_set :: "pystr \<Rightarrow> pyval \<Rightarrow> (pystr \<times> pyval) list \<Rightarrow> (pystr \<times> pyval) list" where
  "dict_set k v [] = [(k, v)]"
| "dict_set k v (entry # d) = (if fst entry = k then (k, v) # d else entry # dict_set k v d)"

definition as_dict :: "(pystr \<times> pyval) list \<Rightarrow> pyval" where
  "as_dict d = PDict (map (\<lambda>entry. (PStr (fst entry), snd entry)) d)"

definition reserved_name :: pystr where
  "reserved_name = lit ''_n_attempt_cache_id''"

definition args_dict :: "pystr list \<Rightarrow> pyfunc \<Rightarrow> pyval list \<Rightarrow> (pystr \<times> pyval) list" where
  "args_dict ignore_params func args = fold dict_pop ignore_params (zip (fn_args_names func) args)"

definition kwargs_clone :: "pystr list \<Rightarrow> int \<Rightarrow> (pystr \<times> pyval) list \<Rightarrow> (pystr \<times> pyval) list" where
  "kwargs_clone ignore_params n kwargs =
     dict_set reserved_name (PInt n) (fold dict_pop ignore_params kwargs)"

text \<open>The Cache Key, \<^verbatim>\<open>arg_hash\<close> in the source.\<close>

definition arg_hash :: "pystr list \<Rightarrow> pyfunc \<Rightarrow> pystr \<Rightarrow> pyval list \<Rightarrow> int
    \<Rightarrow> (pystr \<times> pyval) list \<Rightarrow> py_exn + pystr" where
  "arg_hash ignore_params func func_source_code_hash args n kwargs =
     (case recursive_hash (as_dict (args_dict ignore_params func args)) 0 ignore_params of
        Inl e \<Rightarrow> Inl e
      | Inr ha \<Rightarrow>
          (case recursive_hash (as_dict (kwargs_clone ignore_params n kwargs)) 0 ignore_params of
             Inl e \<Rightarrow> Inl e
           | Inr hk \<Rightarrow> Inr (ha @ hk @ func_source_code_hash)))"

text \<open>\<^verbatim>\<open>os.path.join\<close> of the cache directory and a file name (POSIX).\<close>

definition path_join :: "pystr \<Rightarrow> pystr \<Rightarrow> pystr" where
  "path_join dir name = (case name of c # _ \<Rightarrow> (if c = 47 then name else dir @ [47] @ name)
                                     | [] \<Rightarrow> dir @ [47])"

definition cache_file :: "pyfunc \<Rightarrow> pystr \<Rightarrow> pystr" where
  "cache_file func key =
     path_join (lit ''.cache/file_cache'')
       (fn_module func @ lit ''_'' @ fn_name func @ lit ''_'' @ key @ lit ''.pickle'')"

definition log_info :: "pystr \<Rightarrow> world \<Rightarrow> world" where
  "log_info msg w = w\<lparr>logged := logged w @ [msg]\<rparr>"

text \<open>The first \<^verbatim>\<open>try\<close> block: the value read from the cache, if one is.\<close>

definition try_load :: "bool \<Rightarrow> pyfunc \<Rightarrow> faults \<Rightarrow> pystr \<Rightarrow> world \<Rightarrow> pyval option \<times> world" where
  "try_load verbose func flt path w =
     (if stat_fails flt then (None, w)
      else (case files w path of
          None \<Rightarrow> (None, w)
        | Some content \<Rightarrow>
            (let w1 = (if verbose
                       then w\<lparr>printed := printed w @ [lit ''Used cache for function: '' @ fn_name func]\<rparr>
                       else w)
             in if open_rb_fails flt then (None, log_info (lit ''Unpickling failed'') w1)
                else (case content of
                    Pickled v \<Rightarrow>
                      (if load_fails flt then (None, log_info (lit ''Unpickling failed'') w1)
                       else (Some v, w1))
                  | Corrupt \<Rightarrow> (None, log_info (lit ''Unpickling failed'') w1)))))"

text \<open>The second \<^verbatim>\<open>try\<close> block: the result is written, or the failure is logged.\<close>

definition try_dump :: "faults \<Rightarrow> pystr \<Rightarrow> pyval \<Rightarrow> world \<Rightarrow> world" where
  "try_dump flt path result w =
     (if open_wb_fails flt then log_info (lit ''Pickling failed: '' @ write_error flt) w
      else if dump_fails flt
        then log_info (lit ''Pickling failed: '' @ write_error flt)
               (w\<lparr>files := (files w)(path \<mapsto> Corrupt)\<rparr>)
      else w\<lparr>files := (files w)(path \<mapsto> Pickled result)\<rparr>)"

definition wrapper :: "pystr list \<Rightarrow> bool \<Rightarrow> pyfunc \<Rightarrow> pystr \<Rightarrow> faults \<Rightarrow> pyval list \<Rightarrow> int
    \<Rightarrow> (pystr \<times> pyval) list \<Rightarrow> world \<Rightarrow> (py_exn + pyval) \<times> world" where
  "wrapper ignore_params verbose func func_source_code_hash flt args n kwargs w =
     (if makedirs_fails flt then (Inl OSError, w)
      else (case arg_hash ignore_params func func_source_code_hash args n kwargs of
          Inl e \<Rightarrow> (Inl e, w)
        | Inr key \<Rightarrow>
            (case try_load verbose func flt (cache_file func key) w of
               (Some v, w1) \<Rightarrow> (Inr v, w1)
             | (None, w1) \<Rightarrow>
                 (case fn_body func args kwargs of
                    Inl e \<Rightarrow> (Inl e, w1\<lparr>executions := Suc (executions w1)\<rparr>)
                  | Inr result \<Rightarrow>
                      (Inr result,
                       try_dump flt (cache_file func key) result
                         (w1\<lparr>executions := Suc (executions w1)\<rparr>))))))"

text \<open>The behaviour signature is computed when the function is wrapped, once.\<close>

definition decorator :: "pystr list \<Rightarrow> bool \<Rightarrow> pyfunc
    \<Rightarrow> py_exn + (faults \<Rightarrow> pyval list \<Rightarrow> int \<Rightarrow> (pystr \<times> pyval) list \<Rightarrow> world
                 \<Rightarrow> (py_exn + pyval) \<times> world)" where
  "decorator ignore_params verbose func =
     (case hash_code (fn_source func) of
        Inl e \<Rightarrow> Inl e
      | Inr func_source_code_hash \<Rightarrow> Inr (wrapper ignore_params verbose func func_source_code_hash))"

definition file_cache :: "pystr list \<Rightarrow> bool \<Rightarrow> pyfunc
    \<Rightarrow> py_exn + (faults \<Rightarrow> pyval list \<Rightarrow> int \<Rightarrow> (pystr \<times> pyval) list \<Rightarrow> world
                 \<Rightarrow> (py_exn + pyval) \<times> world)" where
  "file_cache ignore_params verbose = decorator ignore_params verbose"

section \<open>Notions the properties are stated with\<close>


text \<open>
  The two digests of a dictionary entry, joined, and the text a dictionary is digested
  from: the \<^verbatim>\<open>"".join\<close> of these for the entries whose key is not excluded.
\<close>

definition entry_hash :: "nat \<Rightarrow> pystr list \<Rightarrow> pyval \<times> pyval \<Rightarrow> py_exn + pystr" where
  "entry_hash depth ignore_params entry =
     (case recursive_hash (fst entry) (depth + 1) ignore_params of
        Inl e \<Rightarrow> Inl e
      | Inr hk \<Rightarrow>
          (case recursive_hash (snd entry) (depth + 1) ignore_params of
             Inl e \<Rightarrow> Inl e
           | Inr hv \<Rightarrow> Inr (hk @ hv)))"

definition dict_text :: "(pyval \<times> pyval) list \<Rightarrow> nat \<Rightarrow> pystr list \<Rightarrow> py_exn + pystr" where
  "dict_text entries depth ignore_params =
     (case collect (map (entry_hash depth ignore_params)
                     (filter (\<lambda>entry. \<not> py_in (fst entry) ignore_params) entries)) of
        Inl e \<Rightarrow> Inl e
      | Inr hs \<Rightarrow> Inr (concat hs))"

text \<open>
  A text is encodable when it has no lone surrogate; \<open>texts_encodable k v\<close> says that the
  texts of \<open>v\<close> met in the first \<open>k\<close> levels are, and that the integers met there have a
  text form. \<open>self_list\<close> is a list that contains itself (\<^verbatim>\<open>l = []; l.append(l)\<close>).
\<close>

definition encodable :: "pystr \<Rightarrow> bool" where
  "encodable s = list_all (\<lambda>c. c < 0xD800 \<or> (0xE000 \<le> c \<and> c < 0x110000)) s"

fun texts_encodable :: "nat \<Rightarrow> pyval \<Rightarrow> bool" where
  "texts_encodable 0 v = True"
| "texts_encodable (Suc k) v =
     (case v of
        PInt i \<Rightarrow> length (dec (nat \<bar>i\<bar>)) \<le> int_max_str_digits
      | PFloat t \<Rightarrow> encodable t
      | PStr s \<Rightarrow> encodable s
      | PList items \<Rightarrow> list_all (texts_encodable k) items
      | PTuple items \<Rightarrow> list_all (texts_encodable k) items
      | PDict entries \<Rightarrow>
          list_all (\<lambda>entry. texts_encodable k (fst entry) \<and> texts_encodable k (snd entry)) entries
      | PObject cls d \<Rightarrow> texts_encodable k d
      | _ \<Rightarrow> True)"

primcorec self_list :: "unit \<Rightarrow> pyval" where
  "self_list u = PList (map self_list [u])"

text \<open>
  Two values that differ only in values held under excluded names: they are the same
  value, or containers of the same shape whose elements are so related, where a
  dictionary entry under an excluded key may hold any two values. \<open>entries_same\<close> is the
  same for two records of named arguments.
\<close>

inductive same_but_excluded :: "pystr list \<Rightarrow> pyval \<Rightarrow> pyval \<Rightarrow> bool"
  for ignore_params :: "pystr list" where
  same: "same_but_excluded ignore_params v v"
| in_list: "length xs = length ys
     \<Longrightarrow> \<forall>i<length xs. same_but_excluded ignore_params (xs ! i) (ys ! i)
     \<Longrightarrow> same_but_excluded ignore_params (PList xs) (PList ys)"
| in_tuple: "length xs = length ys
     \<Longrightarrow> \<forall>i<length xs. same_but_excluded ignore_params (xs ! i) (ys ! i)
     \<Longrightarrow> same_but_excluded ignore_params (PTuple xs) (PTuple ys)"
| in_dict: "length es1 = length es2
     \<Longrightarrow> \<forall>i<length es1. fst (es1 ! i) = fst (es2 ! i)
           \<and> (py_in (fst (es1 ! i)) ignore_params
              \<or> same_but_excluded ignore_params (snd (es1 ! i)) (snd (es2 ! i)))
     \<Longrightarrow> same_but_excluded ignore_params (PDict es1) (PDict es2)"
| in_object: "same_but_excluded ignore_params d1 d2
     \<Longrightarrow> same_but_excluded ignore_params (PObject cls d1) (PObject cls d2)"

definition entries_same :: "pystr list \<Rightarrow> (pystr \<times> pyval) list \<Rightarrow> (pystr \<times> pyval) list \<Rightarrow> bool" where
  "entries_same ignore_params d1 d2 =
     list_all2 (\<lambda>e1 e2. fst e1 = fst e2
        \<and> (fst e1 \<in> set ignore_params \<or> same_but_excluded ignore_params (snd e1) (snd e2))) d1 d2"

text \<open>
  The key of a call of \<^verbatim>\<open>file_cache(ignore_params)(func)\<close>: the digest of the source the
  decorator computes, given to \<^verbatim>\<open>arg_hash\<close> of the wrapper.
\<close>

definition cache_key :: "pystr list \<Rightarrow> pyfunc \<Rightarrow> pyval list \<Rightarrow> int \<Rightarrow> (pystr \<times> pyval) list
    \<Rightarrow> py_exn + pystr" where
  "cache_key ignore_params func args n kwargs =
     (case hash_code (fn_source func) of
        Inl e \<Rightarrow> Inl e
      | Inr func_source_code_hash \<Rightarrow> arg_hash ignore_params func func_source_code_hash args n kwargs)"

text \<open>Two different texts that MD5 digests to the same digest.\<close>

definition md5_collision :: "pystr \<Rightarrow> pystr \<Rightarrow> bool" where
  "md5_collision s t = (s \<noteq> t \<and> md5_hex s = md5_hex t \<and> \<not> isl (md5_hex s))"

text \<open>The text the record of named arguments is digested from.\<close>

definition kwargs_text :: "pystr list \<Rightarrow> int \<Rightarrow> (pystr \<times> pyval) list \<Rightarrow> py_exn + pystr" where
  "kwargs_text ignore_params n kwargs =
     dict_text (map (\<lambda>entry. (PStr (fst entry), snd entry)) (kwargs_clone ignore_params n kwargs))
       0 ignore_params"

text \<open>The text the record of mapped positional arguments is digested from.\<close>

definition args_text :: "pystr list \<Rightarrow> pyfunc \<Rightarrow> pyval list \<Rightarrow> py_exn + pystr" where
  "args_text ignore_params func args =
     dict_text (map (\<lambda>entry. (PStr (fst entry), snd entry)) (args_dict ignore_params func args))
       0 ignore_params"

section \<open>The examples\<close>

text \<open>
  \<^verbatim>\<open>square\<close>, wrapped with the decorator syntax: \<^verbatim>\<open>inspect.getsource\<close> returns the text
  from the decorator line on. Its body multiplies an integer by itself and raises
  \<^verbatim>\<open>TypeError\<close> on anything else. \<open>square_source2\<close> is the text after the body is rewritten.
\<close>

definition square_source :: pystr where
  "square_source = lit ''@file_cache()'' @ [10] @ lit ''def square(x):'' @ [10]
                    @ lit ''    return x * x'' @ [10]"

definition square_source2 :: pystr where
  "square_source2 = lit ''@file_cache()'' @ [10] @ lit ''def square(x):'' @ [10]
                     @ lit ''    return x ** 2'' @ [10]"

definition square_body :: "pyval list \<Rightarrow> (pystr \<times> pyval) list \<Rightarrow> py_exn + pyval" where
  "square_body args kwargs =
     (case (args, kwargs) of
        ([PInt x], []) \<Rightarrow> Inr (PInt (x * x))
      | ([], [(name, PInt x)]) \<Rightarrow>
          (if name = lit ''x'' then Inr (PInt (x * x)) else Inl (Raised (lit ''TypeError'')))
      | _ \<Rightarrow> Inl (Raised (lit ''TypeError'')))"

definition square :: pyfunc where
  "square = \<lparr>fn_module = lit ''__main__'', fn_name = lit ''square'', fn_source = square_source,
              fn_args_names = [lit ''x''], fn_body = square_body\<rparr>"

text \<open>A function of two parameters, wrapped with \<^verbatim>\<open>timestamp\<close> excluded.\<close>

definition stamped_source :: pystr where
  "stamped_source = lit ''@file_cache(ignore_params=['' @ [34] @ lit ''timestamp'' @ [34] @ lit ''])''
       @ [10] @ lit ''def stamped(x, timestamp):'' @ [10] @ lit ''    return x'' @ [10]"

definition stamped :: pyfunc where
  "stamped = \<lparr>fn_module = lit ''__main__'', fn_name = lit ''stamped'',
     fn_source = stamped_source,
     fn_args_names = [lit ''x'', lit ''timestamp''],
     fn_body = (\<lambda>args kwargs. case args of x # _ \<Rightarrow> Inr x | [] \<Rightarrow> Inl (Raised (lit ''TypeError'')))\<rparr>"

text \<open>The functions \<^verbatim>\<open>def f(): return c\<close>: one name, one signature, a body for every \<open>c\<close>.\<close>

definition constant_fn :: "nat \<Rightarrow> pyfunc" where
  "constant_fn c = \<lparr>fn_module = lit ''__main__'', fn_name = lit ''f'',
     fn_source = lit ''def f():'' @ [10] @ lit ''    return '' @ dec c @ [10],
     fn_args_names = [], fn_body = (\<lambda>args kwargs. Inr (PInt (int c)))\<rparr>"

text \<open>Two texts of 72 characters with one MD5 digest (M. Stevens, 2024).\<close>

definition collision_a :: pystr where
  "collision_a = lit ''TEXTCOLLBYfGiJUETHQ4hAcKSMd5zYpgqf1YRDhkmxHkhPWptrkoyz28wnI9V0aHeAuaKnak''"

definition collision_b :: pystr where
  "collision_b = lit ''TEXTCOLLBYfGiJUETHQ4hEcKSMd5zYpgqf1YRDhkmxHkhPWptrkoyz28wnI9V0aHeAuaKnak''"

section \<open>Digests have 32 characters and are ASCII\<close>

lemma length_le_bytes4: "length (le_bytes4 x) = 4"
  by (simp add: le_bytes4_def)

lemma le_bytes4_bound: "b \<in> set (le_bytes4 x) \<Longrightarrow> b < 256"
  by (auto simp: le_bytes4_def)

lemma length_md5_digest: "length (md5_digest msg) = 16"
  by (simp add: md5_digest_def length_le_bytes4 split: prod.splits)

lemma md5_digest_bound: "b \<in> set (md5_digest msg) \<Longrightarrow> b < 256"
  by (auto simp: md5_digest_def split: prod.splits dest: le_bytes4_bound)

lemma length_concat_hex_byte: "length (concat (map hex_byte bs)) = 2 * length bs"
  by (induction bs) (simp_all add: hex_byte_def)

lemma length_hexdigest: "length (hexdigest msg) = 32"
  by (simp add: hexdigest_def length_concat_hex_byte length_md5_digest)

lemma hex_digit_ascii: "n < 16 \<Longrightarrow> hex_digit n < 128"
  by (simp add: hex_digit_def)

lemma hex_byte_ascii: "b < 256 \<Longrightarrow> c \<in> set (hex_byte b) \<Longrightarrow> c < 128"
  by (auto simp: hex_byte_def intro!: hex_digit_ascii)

lemma hexdigest_ascii: "c \<in> set (hexdigest msg) \<Longrightarrow> c < 128"
  by (auto simp: hexdigest_def dest: md5_digest_bound hex_byte_ascii)

lemma encode_ascii: "(\<And>c. c \<in> set s \<Longrightarrow> c < 128) \<Longrightarrow> encode s = Inr s"
  by (induction s) (simp_all add: utf8_char_def)

lemma md5_hex_length: "md5_hex s = Inr h \<Longrightarrow> length h = 32"
  by (auto simp: md5_hex_def length_hexdigest split: sum.splits)

lemma md5_hex_ascii: "md5_hex s = Inr h \<Longrightarrow> c \<in> set h \<Longrightarrow> c < 128"
  by (auto simp: md5_hex_def split: sum.splits dest: hexdigest_ascii)

lemma md5_hex_ascii_eq: "(\<And>c. c \<in> set s \<Longrightarrow> c < 128) \<Longrightarrow> md5_hex s = Inr (hexdigest s)"
  by (simp add: md5_hex_def encode_ascii)

lemma md5_hex_raises: "md5_hex s = Inl e \<Longrightarrow> e = UnicodeEncodeError"
proof -
  have "encode t = Inl e \<Longrightarrow> e = UnicodeEncodeError" for t
    by (induction t) (auto simp: utf8_char_def split: if_splits sum.splits)
  moreover assume "md5_hex s = Inl e"
  ultimately show ?thesis by (auto simp: md5_hex_def split: sum.splits)
qed

lemma encode_total: "encodable s \<Longrightarrow> \<exists>bs. encode s = Inr bs"
  by (induction s) (auto simp: encodable_def utf8_char_def)

lemma md5_hex_total: "encodable s \<Longrightarrow> \<exists>h. md5_hex s = Inr h"
  using encode_total [of s] by (auto simp: md5_hex_def)

lemma md5_hex_total_ascii: "(\<And>c. c \<in> set s \<Longrightarrow> c < 128) \<Longrightarrow> \<exists>h. md5_hex s = Inr h"
  by (simp add: md5_hex_def encode_ascii)

section \<open>Text forms\<close>

lemma dec_digits: "c \<in> set (dec n) \<Longrightarrow> 48 \<le> c \<and> c \<le> 57"
proof (induction n rule: dec.induct)
  case (1 n)
  show ?case
  proof (cases "n < 10")
    case True
    with "1.prems" show ?thesis by (subst (asm) dec.simps) simp
  next
    case False
    with "1.prems" have "c \<in> set (dec (n div 10)) \<or> c = 48 + n mod 10"
      by (subst (asm) dec.simps) auto
    then show ?thesis
    proof
      assume "c \<in> set (dec (n div 10))"
      with False show ?thesis by (rule "1.IH")
    next
      assume "c = 48 + n mod 10"
      moreover have "n mod 10 < 10" by simp
      ultimately show ?thesis by simp
    qed
  qed
qed

lemma dec_value: "foldl (\<lambda>a c. 10 * a + (c - 48)) 0 (dec n) = n"
proof (induction n rule: dec.induct)
  case (1 n)
  show ?case
  proof (cases "n < 10")
    case True
    then show ?thesis by (subst dec.simps) simp
  next
    case False
    with "1.IH" have "foldl (\<lambda>a c. 10 * a + (c - 48)) 0 (dec (n div 10)) = n div 10"
      by simp
    with False show ?thesis by (subst dec.simps) simp
  qed
qed

lemma dec_inj: "dec n = dec m \<Longrightarrow> n = m"
  by (metis dec_value)

lemma str_int_inj: "str_int i = str_int j \<Longrightarrow> i = j"
proof -
  assume eq: "str_int i = str_int j"
  have no_minus: "45 # xs \<noteq> dec k" for xs k
  proof
    assume "45 # xs = dec k"
    then have "45 \<in> set (dec k)" by (metis list.set_intros(1))
    then show False by (auto dest: dec_digits)
  qed
  show ?thesis
  proof (cases "i < 0"; cases "j < 0")
    assume "i < 0" "j < 0"
    with eq have "nat (- i) = nat (- j)" by (auto simp: str_int_def dest: dec_inj)
    with \<open>i < 0\<close> \<open>j < 0\<close> show ?thesis by simp
  next
    assume "i < 0" "\<not> j < 0"
    with eq no_minus show ?thesis by (simp add: str_int_def)
  next
    assume "\<not> i < 0" "j < 0"
    with eq no_minus [of "dec (nat (- j))" "nat i"] show ?thesis by (simp add: str_int_def)
  next
    assume "\<not> i < 0" "\<not> j < 0"
    with eq have "nat i = nat j" by (auto simp: str_int_def dest: dec_inj)
    with \<open>\<not> i < 0\<close> \<open>\<not> j < 0\<close> show ?thesis by simp
  qed
qed

lemma str_int_ascii: "c \<in> set (str_int i) \<Longrightarrow> c < 128"
  by (auto simp: str_int_def dest: dec_digits split: if_splits)

lemma reserved_name_ascii: "c \<in> set reserved_name \<Longrightarrow> c < 128"
  by (auto simp: reserved_name_def lit_def)

lemma str_bool_ascii: "c \<in> set (str_bool b) \<Longrightarrow> c < 128"
  by (auto simp: str_bool_def lit_def split: if_splits)

lemma bytes_escape_ascii: "q < 128 \<Longrightarrow> b < 256 \<Longrightarrow> c \<in> set (bytes_escape q b) \<Longrightarrow> c < 128"
  by (auto simp: bytes_escape_def hex_digit_def split: if_splits)

lemma str_bytes_ascii: "c \<in> set (str_bytes bs) \<Longrightarrow> c < 128"
proof -
  have q: "bytes_quote bs < 128" by (simp add: bytes_quote_def)
  have b: "unat x < 256" for x :: "8 word"
    using unsigned_less [of x] by simp
  assume "c \<in> set (str_bytes bs)"
  then show ?thesis
    using q b by (auto simp: str_bytes_def dest: bytes_escape_ascii)
qed

lemma str_int_0: "str_int 0 = lit ''0''"
  by (simp add: str_int_def dec.simps lit_def)

lemma str_int_1: "str_int 1 = lit ''1''"
  by (simp add: str_int_def dec.simps lit_def)

lemma str_int_4: "str_int 4 = lit ''4''"
  by (simp add: str_int_def dec.simps lit_def)

lemma py_str_int_0: "py_str_int 0 = Inr (lit ''0'')"
  by (simp add: py_str_int_def int_max_str_digits_def str_int_0 dec.simps)

lemma py_str_int_1: "py_str_int 1 = Inr (lit ''1'')"
  by (simp add: py_str_int_def int_max_str_digits_def str_int_1 dec.simps)

lemma py_str_int_4: "py_str_int 4 = Inr (lit ''4'')"
  by (simp add: py_str_int_def int_max_str_digits_def str_int_4 dec.simps)

lemma py_str_int_raises: "py_str_int i = Inl e \<Longrightarrow> e = ValueError"
  by (simp add: py_str_int_def split: if_splits)

lemma py_str_int_returns: "py_str_int i = Inr s \<Longrightarrow> s = str_int i"
  by (simp add: py_str_int_def split: if_splits)

lemma py_str_int_total:
  "length (dec (nat \<bar>i\<bar>)) \<le> int_max_str_digits \<Longrightarrow> py_str_int i = Inr (str_int i)"
  by (simp add: py_str_int_def)

lemma length_dec_power: "length (dec (10 ^ k)) = Suc k"
proof (induction k)
  case 0
  show ?case by (simp add: dec.simps)
next
  case (Suc k)
  have "dec (10 ^ Suc k) = dec (10 ^ k) @ [48]"
    by (subst dec.simps) simp
  with Suc.IH show ?case by simp
qed

lemma py_str_int_power:
  "py_str_int (10 ^ k) = (if 4300 \<le> k then Inl ValueError else Inr (str_int (10 ^ k)))"
proof -
  have n: "nat \<bar>10 ^ k :: int\<bar> = 10 ^ k"
    by (simp add: nat_power_eq)
  show ?thesis
    unfolding py_str_int_def int_max_str_digits_def n length_dec_power by auto
qed

lemma x_not_reserved: "lit ''x'' \<noteq> lit ''_n_attempt_cache_id''"
  by (simp add: lit_def)

lemma x_not_timestamp: "lit ''x'' \<noteq> lit ''timestamp''"
  by (simp add: lit_def)

lemma reserved_not_timestamp: "lit ''_n_attempt_cache_id'' \<noteq> lit ''timestamp''"
  by (simp add: lit_def)

section \<open>Comprehensions\<close>

lemma collect_raises: "collect (map f xs) = Inl e \<Longrightarrow> \<exists>x\<in>set xs. f x = Inl e"
  by (induction xs) (auto split: sum.splits)

lemma collect_returns: "collect (map f xs) = Inr hs \<Longrightarrow> h \<in> set hs \<Longrightarrow> \<exists>x\<in>set xs. f x = Inr h"
  by (induction xs arbitrary: hs) (auto split: sum.splits)

lemma collect_total: "(\<And>x. x \<in> set xs \<Longrightarrow> \<exists>h. f x = Inr h) \<Longrightarrow> \<exists>hs. collect (map f xs) = Inr hs"
proof (induction xs)
  case Nil
  show ?case by simp
next
  case (Cons x xs)
  then obtain hs where "collect (map f xs) = Inr hs" by auto
  moreover from Cons.prems [of x] obtain h where "f x = Inr h" by auto
  ultimately show ?case by simp
qed

lemma collect_append:
  "collect (xs @ ys) =
     (case collect xs of
        Inl e \<Rightarrow> Inl e
      | Inr a \<Rightarrow> (case collect ys of Inl e \<Rightarrow> Inl e | Inr b \<Rightarrow> Inr (a @ b)))"
  by (induction xs) (auto split: sum.splits)

section \<open>Digests by evaluation\<close>

text \<open>
  The digests of the texts the examples need, computed by rewriting with the definition
  of MD5. They are the digests \<^verbatim>\<open>hashlib\<close> prints for these texts.
\<close>

lemma replicate_numeral_eval: "replicate (numeral k) x = x # replicate (pred_numeral k) x"
  by (simp add: numeral_eq_Suc)

lemmas md5_eval = md5_hex_def utf8_char_def lit_def hexdigest_def hex_byte_def hex_digit_def
  md5_digest_def md5_pad_def le_bytes4_def le_bytes8_def md5_table_def add32_def not32_def
  rotl32_def replicate_numeral_eval

lemma md5_hex_empty: "md5_hex ([]) = Inr (lit ''d41d8cd98f00b204e9800998ecf8427e'')"
  by (simp add: md5_eval)

lemma md5_hex_x: "md5_hex (lit ''x'') = Inr (lit ''9dd4e461268c8034f5c8564e155c67a6'')"
  by (simp add: md5_eval)

lemma md5_hex_4: "md5_hex (lit ''4'') = Inr (lit ''a87ff679a2f3e71d9181a67b7542122c'')"
  by (simp add: md5_eval)

lemma md5_hex_0: "md5_hex (lit ''0'') = Inr (lit ''cfcd208495d565ef66e7dff9f98764da'')"
  by (simp add: md5_eval)

lemma md5_hex_1: "md5_hex (lit ''1'') = Inr (lit ''c4ca4238a0b923820dcc509a6f75849b'')"
  by (simp add: md5_eval)

lemma md5_hex_True: "md5_hex (lit ''True'') = Inr (lit ''f827cf462f62848df37c5e1e94a4da74'')"
  by (simp add: md5_eval)

lemma md5_hex_reserved: "md5_hex (lit ''_n_attempt_cache_id'') = Inr (lit ''eb086c36621f35b70fe066e67a0c77af'')"
  by (simp add: md5_eval)

lemma md5_hex_unknown: "md5_hex (lit ''unknown'') = Inr (lit ''ad921d60486366258809553a3db49a4a'')"
  by (simp add: md5_eval)

lemma md5_hex_max_depth: "md5_hex (lit ''max_depth_reached'') = Inr (lit ''8d7c5c61bc97911703e761050f44eb78'')"
  by (simp add: md5_eval)

lemma md5_hex_x_4: "md5_hex (lit ''9dd4e461268c8034f5c8564e155c67a6'' @ lit ''a87ff679a2f3e71d9181a67b7542122c'') = Inr (lit ''467830e7a3c0acdc2dad7582d984c0bb'')"
  by (simp add: md5_eval)

lemma md5_hex_x_unknown: "md5_hex (lit ''9dd4e461268c8034f5c8564e155c67a6'' @ lit ''ad921d60486366258809553a3db49a4a'') = Inr (lit ''dc3102ce5d82ec35da19fe0fb006ae72'')"
  by (simp add: md5_eval)

lemma md5_hex_reserved_0: "md5_hex (lit ''eb086c36621f35b70fe066e67a0c77af'' @ lit ''cfcd208495d565ef66e7dff9f98764da'') = Inr (lit ''aab55e58177f73981069d0d981dd92d6'')"
  by (simp add: md5_eval)

lemma md5_hex_reserved_1: "md5_hex (lit ''eb086c36621f35b70fe066e67a0c77af'' @ lit ''c4ca4238a0b923820dcc509a6f75849b'') = Inr (lit ''df08626980dde8886c74486827c296f6'')"
  by (simp add: md5_eval)

lemma md5_hex_x_4_reserved_0: "md5_hex (lit ''9dd4e461268c8034f5c8564e155c67a6'' @ lit ''a87ff679a2f3e71d9181a67b7542122c'' @ lit ''eb086c36621f35b70fe066e67a0c77af'' @ lit ''cfcd208495d565ef66e7dff9f98764da'') = Inr (lit ''df40f228cb24768489f229cfeceb214b'')"
  by (simp add: md5_eval)

lemma md5_hex_square_source: "md5_hex (square_source) = Inr (lit ''59836d4a17728cb597d647f92c941097'')"
  by (simp add: md5_eval square_source_def)

lemma md5_hex_square_source2: "md5_hex (square_source2) = Inr (lit ''48fe5f4290081f922e128a0018877f0f'')"
  by (simp add: md5_eval square_source2_def)

lemma md5_hex_stamped_source: "md5_hex (stamped_source) = Inr (lit ''6be61460b957cb6d5321042ca7b51343'')"
  by (simp add: md5_eval stamped_source_def)

lemma md5_hex_collision_a: "md5_hex (collision_a) = Inr (lit ''faad49866e9498fc1719f5289e7a0269'')"
  by (simp add: md5_eval collision_a_def)

lemma md5_hex_collision_b: "md5_hex (collision_b) = Inr (lit ''faad49866e9498fc1719f5289e7a0269'')"
  by (simp add: md5_eval collision_b_def)

section \<open>The equations of \<^verbatim>\<open>recursive_hash\<close>\<close>

lemma recursive_hash_deep:
  "MAX_DEPTH < depth \<Longrightarrow>
     recursive_hash v depth ignore_params = Inr (lit ''8d7c5c61bc97911703e761050f44eb78'')"
  by (subst recursive_hash.simps) (simp add: md5_hex_max_depth)

lemma recursive_hash_PInt:
  "depth \<le> MAX_DEPTH \<Longrightarrow> recursive_hash (PInt i) depth ignore_params =
     (case py_str_int i of Inl e \<Rightarrow> Inl e | Inr s \<Rightarrow> md5_hex s)"
  by (subst recursive_hash.simps) simp

lemma recursive_hash_PFloat:
  "depth \<le> MAX_DEPTH \<Longrightarrow> recursive_hash (PFloat t) depth ignore_params = md5_hex t"
  by (subst recursive_hash.simps) simp

lemma recursive_hash_PStr:
  "depth \<le> MAX_DEPTH \<Longrightarrow> recursive_hash (PStr s) depth ignore_params = md5_hex s"
  by (subst recursive_hash.simps) simp

lemma recursive_hash_PBool:
  "depth \<le> MAX_DEPTH \<Longrightarrow> recursive_hash (PBool b) depth ignore_params = md5_hex (str_bool b)"
  by (subst recursive_hash.simps) simp

lemma recursive_hash_PBytes:
  "depth \<le> MAX_DEPTH \<Longrightarrow> recursive_hash (PBytes bs) depth ignore_params = md5_hex (str_bytes bs)"
  by (subst recursive_hash.simps) simp

lemma recursive_hash_PList:
  "depth \<le> MAX_DEPTH \<Longrightarrow> recursive_hash (PList items) depth ignore_params =
     (case collect (map (\<lambda>item. recursive_hash item (depth + 1) ignore_params) items) of
        Inl e \<Rightarrow> Inl e
      | Inr hs \<Rightarrow> md5_hex (concat hs))"
  by (subst recursive_hash.simps) simp

lemma recursive_hash_PTuple:
  "depth \<le> MAX_DEPTH \<Longrightarrow> recursive_hash (PTuple items) depth ignore_params =
     (case collect (map (\<lambda>item. recursive_hash item (depth + 1) ignore_params) items) of
        Inl e \<Rightarrow> Inl e
      | Inr hs \<Rightarrow> md5_hex (concat hs))"
  by (subst recursive_hash.simps) simp

lemma recursive_hash_PDict:
  "depth \<le> MAX_DEPTH \<Longrightarrow> recursive_hash (PDict entries) depth ignore_params =
     (case dict_text entries depth ignore_params of Inl e \<Rightarrow> Inl e | Inr t \<Rightarrow> md5_hex t)"
  by (subst recursive_hash.simps)
     (simp add: dict_text_def entry_hash_def[abs_def] split: sum.splits)

lemma recursive_hash_PObject:
  "depth \<le> MAX_DEPTH \<Longrightarrow> recursive_hash (PObject cls d) depth ignore_params =
     (if cls \<notin> set ignore_params then recursive_hash d (depth + 1) ignore_params
      else md5_hex (lit ''unknown''))"
  by (subst recursive_hash.simps) simp

lemma recursive_hash_POther:
  "depth \<le> MAX_DEPTH \<Longrightarrow> recursive_hash POther depth ignore_params = md5_hex (lit ''unknown'')"
  by (subst recursive_hash.simps) simp

lemmas recursive_hash_eval = recursive_hash_PInt recursive_hash_PFloat recursive_hash_PStr
  recursive_hash_PBool recursive_hash_PBytes recursive_hash_PList recursive_hash_PTuple
  recursive_hash_PDict recursive_hash_PObject recursive_hash_POther dict_text_def entry_hash_def
  py_in_def MAX_DEPTH_def

lemma recursive_hash_length: "recursive_hash v depth ignore_params = Inr h \<Longrightarrow> length h = 32"
proof (induction v depth ignore_params arbitrary: h rule: recursive_hash.induct)
  case (1 v depth ignore_params)
  from "1.prems" show ?case
    by (subst (asm) recursive_hash.simps)
       (auto split: if_splits pyval.splits sum.splits dest: md5_hex_length "1.IH"(5))
qed

lemma recursive_hash_ascii:
  "recursive_hash v depth ignore_params = Inr h \<Longrightarrow> c \<in> set h \<Longrightarrow> c < 128"
proof (induction v depth ignore_params arbitrary: h rule: recursive_hash.induct)
  case (1 v depth ignore_params)
  from "1.prems" show ?case
    by (subst (asm) recursive_hash.simps)
       (auto split: if_splits pyval.splits sum.splits dest: md5_hex_ascii "1.IH"(5))
qed

lemma recursive_hash_raises:
  "recursive_hash v depth ignore_params = Inl e \<Longrightarrow> e \<in> {UnicodeEncodeError, ValueError}"
proof (induction v depth ignore_params rule: recursive_hash.induct)
  case (1 v depth ignore_params)
  note ih = "1.IH" [folded Suc_eq_plus1]
  have key: "e \<in> {UnicodeEncodeError, ValueError}"
    if "\<not> MAX_DEPTH < depth" "v = PDict entries" "(a, b) \<in> set entries"
       "\<not> py_in a ignore_params" "recursive_hash a (Suc depth) ignore_params = Inl e"
    for entries a b
    using that ih(3) [of entries "(a, b)"] by simp
  have val: "e \<in> {UnicodeEncodeError, ValueError}"
    if "\<not> MAX_DEPTH < depth" "v = PDict entries" "(a, b) \<in> set entries"
       "\<not> py_in a ignore_params" "recursive_hash a (Suc depth) ignore_params = Inr hk"
       "recursive_hash b (Suc depth) ignore_params = Inl e"
    for entries a b hk
    using that ih(4) [of entries "(a, b)" hk] by simp
  from "1.prems" show ?case
    by (subst (asm) recursive_hash.simps)
       (auto split: if_splits pyval.splits sum.splits
             dest!: md5_hex_raises py_str_int_raises collect_raises dest: ih(1,2,5) key val)
qed

section \<open>The depth bound\<close>




section \<open>Values with one text form\<close>

text \<open>
  C10. Distinct values within the depth bound, with nothing excluded, have equal
  fingerprints: the integer 1 and the text \<^verbatim>\<open>"1"\<close>, \<^verbatim>\<open>True\<close> and the text \<^verbatim>\<open>"True"\<close>,
  and the empty text, the empty list and the empty dictionary (all three digest the empty
  text). Calls that differ only in such arguments have one Cache Key.
\<close>

theorem text_form_collisions:
  "recursive_hash (PInt 1) 0 [] = Inr (lit ''c4ca4238a0b923820dcc509a6f75849b'')
   \<and> recursive_hash (PStr (lit ''1'')) 0 [] = Inr (lit ''c4ca4238a0b923820dcc509a6f75849b'')
   \<and> recursive_hash (PBool True) 0 [] = Inr (lit ''f827cf462f62848df37c5e1e94a4da74'')
   \<and> recursive_hash (PStr (lit ''True'')) 0 [] = Inr (lit ''f827cf462f62848df37c5e1e94a4da74'')
   \<and> recursive_hash (PStr []) 0 [] = Inr (lit ''d41d8cd98f00b204e9800998ecf8427e'')
   \<and> recursive_hash (PList []) 0 [] = Inr (lit ''d41d8cd98f00b204e9800998ecf8427e'')
   \<and> recursive_hash (PDict []) 0 [] = Inr (lit ''d41d8cd98f00b204e9800998ecf8427e'')
   \<and> arg_hash [] func h [PInt 1] n kwargs = arg_hash [] func h [PStr (lit ''1'')] n kwargs
   \<and> arg_hash [] func h [PBool True] n kwargs = arg_hash [] func h [PStr (lit ''True'')] n kwargs
   \<and> arg_hash [] func h [PStr []] n kwargs = arg_hash [] func h [PList []] n kwargs
   \<and> arg_hash [] func h [PList []] n kwargs = arg_hash [] func h [PDict []] n kwargs"
proof -
  have a: "arg_hash [] func h [v1] n kwargs = arg_hash [] func h [v2] n kwargs"
    if "recursive_hash v1 1 [] = recursive_hash v2 1 []" for v1 v2
    using that
    by (cases "fn_args_names func")
       (simp_all add: arg_hash_def args_dict_def as_dict_def recursive_hash_eval
          cong: sum.case_cong)
  show ?thesis
    by (intro conjI a)
       (simp_all add: recursive_hash_eval py_str_int_1 str_bool_def md5_hex_1 md5_hex_True md5_hex_empty)
qed

section \<open>Where \<^verbatim>\<open>recursive_hash\<close> returns\<close>

text \<open>
  The function terminates on every value, by its depth counter. The exceptions it raises
  are that of \<^verbatim>\<open>encode\<close> and that of \<^verbatim>\<open>str\<close> on an integer of too many digits; on a
  value whose texts are encodable and whose integers have a text form it returns a digest
  of 32 characters, at any depth and with any excluded names, also on a list that contains
  itself.
\<close>

text \<open>
  C6. \<^verbatim>\<open>recursive_hash\<close> is not total: on a text with a lone surrogate the call of
  \<^verbatim>\<open>encode\<close> raises \<^verbatim>\<open>UnicodeEncodeError\<close>, which nothing catches.
\<close>

theorem hash_of_lone_surrogate_raises:
  "recursive_hash (PStr [0xD800]) 0 [] = Inl UnicodeEncodeError"
  by (simp add: recursive_hash_PStr md5_hex_def utf8_char_def)

lemma hash_of_huge_int_raises:
  "4300 \<le> k \<Longrightarrow> recursive_hash (PInt (10 ^ k)) 0 [] = Inl ValueError"
  by (simp add: recursive_hash_PInt py_str_int_power)

lemma hash_items_total:
  assumes "\<And>item. item \<in> set items \<Longrightarrow> \<exists>h. recursive_hash item d ign = Inr h"
  shows "\<exists>h. (case collect (map (\<lambda>item. recursive_hash item d ign) items) of
                Inl e \<Rightarrow> Inl e | Inr hs \<Rightarrow> md5_hex (concat hs)) = Inr h"
proof -
  from assms have "\<exists>hs. collect (map (\<lambda>item. recursive_hash item d ign) items) = Inr hs"
    by (rule collect_total)
  then obtain hs where hs: "collect (map (\<lambda>item. recursive_hash item d ign) items) = Inr hs"
    by blast
  have "c < 128" if "c \<in> set (concat hs)" for c
  proof -
    from that obtain h where "h \<in> set hs" "c \<in> set h" by auto
    with collect_returns [OF hs] obtain item where "recursive_hash item d ign = Inr h" by blast
    then show ?thesis using \<open>c \<in> set h\<close> by (rule recursive_hash_ascii)
  qed
  then have "\<exists>h. md5_hex (concat hs) = Inr h" by (rule md5_hex_total_ascii)
  with hs show ?thesis by simp
qed

lemma dict_text_total:
  assumes "\<And>entry. entry \<in> set entries \<Longrightarrow>
             (\<exists>h. recursive_hash (fst entry) (d + 1) ign = Inr h)
           \<and> (\<exists>h. recursive_hash (snd entry) (d + 1) ign = Inr h)"
  shows "\<exists>h. (case dict_text entries d ign of Inl e \<Rightarrow> Inl e | Inr t \<Rightarrow> md5_hex t) = Inr h"
proof -
  let ?kept = "filter (\<lambda>entry. \<not> py_in (fst entry) ign) entries"
  have each: "\<exists>hk hv. entry_hash d ign entry = Inr (hk @ hv)
      \<and> recursive_hash (fst entry) (d + 1) ign = Inr hk
      \<and> recursive_hash (snd entry) (d + 1) ign = Inr hv" if "entry \<in> set ?kept" for entry
    using that assms [of entry] by (auto simp: entry_hash_def)
  then have "\<exists>hs. collect (map (entry_hash d ign) ?kept) = Inr hs"
    by (intro collect_total) blast
  then obtain hs where hs: "collect (map (entry_hash d ign) ?kept) = Inr hs"
    by blast
  have "c < 128" if "c \<in> set (concat hs)" for c
  proof -
    from that obtain h where "h \<in> set hs" "c \<in> set h" by auto
    with collect_returns [OF hs] obtain entry where "entry \<in> set ?kept" "entry_hash d ign entry = Inr h"
      by blast
    with each [of entry] \<open>c \<in> set h\<close> show ?thesis
      by (auto dest: recursive_hash_ascii)
  qed
  then have "\<exists>h. md5_hex (concat hs) = Inr h" by (rule md5_hex_total_ascii)
  with hs show ?thesis by (simp add: dict_text_def)
qed

lemma recursive_hash_total:
  "texts_encodable (Suc MAX_DEPTH - depth) v \<Longrightarrow> \<exists>h. recursive_hash v depth ign = Inr h"
proof (induction "Suc MAX_DEPTH - depth" arbitrary: v depth)
  case 0
  then have "MAX_DEPTH < depth" by simp
  then show ?case by (simp add: recursive_hash_deep)
next
  case (Suc k)
  from Suc.hyps(2) have le: "depth \<le> MAX_DEPTH" and k: "k = Suc MAX_DEPTH - (depth + 1)"
    by simp_all
  from Suc.prems Suc.hyps(2) have ok: "texts_encodable (Suc k) v" by simp
  have ih: "\<exists>h. recursive_hash x (depth + 1) ign = Inr h" if "texts_encodable k x" for x
    using Suc.hyps(1) [OF k] that k by simp
  show ?case
  proof (cases v)
    case (PInt i)
    with le ok show ?thesis
      by (simp add: recursive_hash_PInt py_str_int_total md5_hex_total_ascii str_int_ascii)
  next
    case (PFloat t)
    with le ok show ?thesis by (simp add: recursive_hash_PFloat md5_hex_total)
  next
    case (PStr s)
    with le ok show ?thesis by (simp add: recursive_hash_PStr md5_hex_total)
  next
    case (PBool b)
    with le show ?thesis
      by (simp add: recursive_hash_PBool md5_hex_total_ascii str_bool_ascii)
  next
    case (PBytes bs)
    with le show ?thesis
      by (simp add: recursive_hash_PBytes md5_hex_total_ascii str_bytes_ascii)
  next
    case (PList items)
    with ok have "\<And>item. item \<in> set items \<Longrightarrow> \<exists>h. recursive_hash item (depth + 1) ign = Inr h"
      using ih by (auto simp: list_all_iff)
    then show ?thesis
      using le PList by (simp only: recursive_hash_PList hash_items_total)
  next
    case (PTuple items)
    with ok have "\<And>item. item \<in> set items \<Longrightarrow> \<exists>h. recursive_hash item (depth + 1) ign = Inr h"
      using ih by (auto simp: list_all_iff)
    then show ?thesis
      using le PTuple by (simp only: recursive_hash_PTuple hash_items_total)
  next
    case (PDict entries)
    with ok have "\<And>entry. entry \<in> set entries \<Longrightarrow>
             (\<exists>h. recursive_hash (fst entry) (depth + 1) ign = Inr h)
           \<and> (\<exists>h. recursive_hash (snd entry) (depth + 1) ign = Inr h)"
      using ih by (auto simp: list_all_iff)
    then show ?thesis
      using le PDict by (simp only: recursive_hash_PDict dict_text_total)
  next
    case (PObject cls d)
    with le ok ih show ?thesis
      by (auto simp: recursive_hash_PObject md5_hex_unknown)
  next
    case POther
    with le show ?thesis by (simp add: recursive_hash_POther md5_hex_unknown)
  qed
qed

lemma self_list_contains_itself: "self_list u = PList [self_list u]"
  by (subst self_list.code) simp

lemma self_list_encodable: "texts_encodable k (self_list u)"
proof (induction k)
  case 0
  show ?case by simp
next
  case (Suc k)
  then show ?case by (subst self_list_contains_itself) simp
qed

lemma recursive_hash_self_list: "\<exists>h. recursive_hash (self_list u) 0 ign = Inr h \<and> length h = 32"
proof -
  have "texts_encodable (Suc MAX_DEPTH - 0) (self_list u)"
    by (rule self_list_encodable)
  then obtain h where "recursive_hash (self_list u) 0 ign = Inr h"
    using recursive_hash_total by blast
  then show ?thesis
    by (auto dest: recursive_hash_length)
qed

section \<open>The two fallback digests\<close>

text \<open>
  C9. The digest returned beyond the depth bound and the digest returned for a value of
  no recognised shape are different: they digest different texts.
\<close>

theorem fallback_digests_differ:
  "recursive_hash POther 7 [] \<noteq> recursive_hash POther 0 []"
  by (simp add: recursive_hash_deep recursive_hash_POther MAX_DEPTH_def md5_hex_unknown)
     (simp add: lit_def)

text \<open>
  C9, as the code has it. Every value beyond the depth bound has the digest of
  \<^verbatim>\<open>"max_depth_reached"\<close>; within the bound, a value of no recognised shape and an
  object whose class name is excluded have the digest of \<^verbatim>\<open>"unknown"\<close>; the two digests
  differ.
\<close>

theorem fallback_digests:
  "(MAX_DEPTH < deep \<longrightarrow>
      recursive_hash v deep ignore_params = Inr (lit ''8d7c5c61bc97911703e761050f44eb78''))
   \<and> (depth \<le> MAX_DEPTH \<longrightarrow>
      recursive_hash POther depth ignore_params = Inr (lit ''ad921d60486366258809553a3db49a4a''))
   \<and> (depth \<le> MAX_DEPTH \<and> cls \<in> set ignore_params \<longrightarrow>
      recursive_hash (PObject cls d) depth ignore_params = Inr (lit ''ad921d60486366258809553a3db49a4a''))
   \<and> lit ''8d7c5c61bc97911703e761050f44eb78'' \<noteq> lit ''ad921d60486366258809553a3db49a4a''"
  by (simp add: recursive_hash_deep recursive_hash_POther recursive_hash_PObject md5_hex_unknown)
     (simp add: lit_def)

theorem fallback_digests_witness:
  "MAX_DEPTH < 9 \<and> 3 \<le> MAX_DEPTH \<and> lit ''Lock'' \<in> set [lit ''Lock'']
   \<and> recursive_hash (PInt 5) 9 [lit ''Lock''] = Inr (lit ''8d7c5c61bc97911703e761050f44eb78'')
   \<and> recursive_hash POther 3 [lit ''Lock''] = Inr (lit ''ad921d60486366258809553a3db49a4a'')
   \<and> recursive_hash (PObject (lit ''Lock'') (PDict [])) 3 [lit ''Lock'']
       = Inr (lit ''ad921d60486366258809553a3db49a4a'')"
  using fallback_digests [where deep = 9 and v = "PInt 5" and ignore_params = "[lit ''Lock'']"
          and depth = 3 and cls = "lit ''Lock''" and d = "PDict []"]
  by (simp add: MAX_DEPTH_def)

section \<open>Excluded names\<close>

lemma map_hash_cong:
  "list_all2 (\<lambda>x y. f x = g y) xs ys \<Longrightarrow> map f xs = map g ys"
  by (induction rule: list_all2_induct) simp_all

lemma dict_text_cong:
  "list_all2 (\<lambda>e1 e2. fst e1 = fst e2
       \<and> (py_in (fst e1) ign \<or> (\<forall>d. recursive_hash (snd e1) d ign = recursive_hash (snd e2) d ign)))
     es1 es2
   \<Longrightarrow> dict_text es1 depth ign = dict_text es2 depth ign"
proof -
  assume rel: "list_all2 (\<lambda>e1 e2. fst e1 = fst e2
       \<and> (py_in (fst e1) ign \<or> (\<forall>d. recursive_hash (snd e1) d ign = recursive_hash (snd e2) d ign)))
     es1 es2"
  then have "map (entry_hash depth ign) (filter (\<lambda>entry. \<not> py_in (fst entry) ign) es1)
           = map (entry_hash depth ign) (filter (\<lambda>entry. \<not> py_in (fst entry) ign) es2)"
    by (induction rule: list_all2_induct) (auto simp: entry_hash_def cong: sum.case_cong)
  then show ?thesis by (simp add: dict_text_def)
qed

lemma same_but_excluded_hash:
  "same_but_excluded ign v1 v2 \<Longrightarrow> recursive_hash v1 depth ign = recursive_hash v2 depth ign"
proof (induction arbitrary: depth rule: same_but_excluded.induct)
  case (same v)
  show ?case by simp
next
  case (in_list xs ys)
  then have "list_all2 (\<lambda>x y. recursive_hash x (depth + 1) ign = recursive_hash y (depth + 1) ign)
               xs ys"
    unfolding list_all2_conv_all_nth by blast
  then have "map (\<lambda>item. recursive_hash item (depth + 1) ign) xs
           = map (\<lambda>item. recursive_hash item (depth + 1) ign) ys"
    by (rule map_hash_cong)
  then show ?case
    by (cases "MAX_DEPTH < depth") (simp_all add: recursive_hash_deep recursive_hash_PList)
next
  case (in_tuple xs ys)
  then have "list_all2 (\<lambda>x y. recursive_hash x (depth + 1) ign = recursive_hash y (depth + 1) ign)
               xs ys"
    unfolding list_all2_conv_all_nth by blast
  then have "map (\<lambda>item. recursive_hash item (depth + 1) ign) xs
           = map (\<lambda>item. recursive_hash item (depth + 1) ign) ys"
    by (rule map_hash_cong)
  then show ?case
    by (cases "MAX_DEPTH < depth") (simp_all add: recursive_hash_deep recursive_hash_PTuple)
next
  case (in_dict es1 es2)
  then have "length es1 = length es2"
    and "\<forall>i<length es1. fst (es1 ! i) = fst (es2 ! i)
           \<and> (py_in (fst (es1 ! i)) ign
              \<or> (\<forall>d. recursive_hash (snd (es1 ! i)) d ign = recursive_hash (snd (es2 ! i)) d ign))"
    by blast+
  then have "list_all2 (\<lambda>e1 e2. fst e1 = fst e2
       \<and> (py_in (fst e1) ign \<or> (\<forall>d. recursive_hash (snd e1) d ign = recursive_hash (snd e2) d ign)))
     es1 es2"
    unfolding list_all2_conv_all_nth by blast
  then have "dict_text es1 depth ign = dict_text es2 depth ign"
    by (rule dict_text_cong)
  then show ?case
    by (cases "MAX_DEPTH < depth") (simp_all add: recursive_hash_deep recursive_hash_PDict)
next
  case (in_object d1 d2 cls)
  then show ?case
    by (cases "MAX_DEPTH < depth") (simp_all add: recursive_hash_deep recursive_hash_PObject)
qed

lemma fold_dict_pop: "fold dict_pop names d = filter (\<lambda>entry. fst entry \<notin> set names) d"
proof (induction names arbitrary: d)
  case Nil
  show ?case by simp
next
  case (Cons p ps)
  show ?case by (simp add: Cons.IH) (simp add: dict_pop_def conj_commute)
qed

lemma entries_same_filter:
  "entries_same ign d1 d2 \<Longrightarrow>
   list_all2 (\<lambda>e1 e2. fst e1 = fst e2 \<and> same_but_excluded ign (snd e1) (snd e2))
     (filter (\<lambda>entry. fst entry \<notin> set ign) d1) (filter (\<lambda>entry. fst entry \<notin> set ign) d2)"
  unfolding entries_same_def
  by (induction rule: list_all2_induct) auto

lemma dict_set_rel:
  "list_all2 (\<lambda>e1 e2. fst e1 = fst e2 \<and> same_but_excluded ign (snd e1) (snd e2)) d1 d2 \<Longrightarrow>
   list_all2 (\<lambda>e1 e2. fst e1 = fst e2 \<and> same_but_excluded ign (snd e1) (snd e2))
     (dict_set k v d1) (dict_set k v d2)"
  by (induction rule: list_all2_induct) (auto intro: same_but_excluded.same)

lemma same_but_excluded_dict:
  "list_all2 (\<lambda>e1 e2. fst e1 = fst e2
       \<and> (py_in (fst e1) ign \<or> same_but_excluded ign (snd e1) (snd e2))) es1 es2
   \<Longrightarrow> same_but_excluded ign (PDict es1) (PDict es2)"
  by (rule same_but_excluded.in_dict) (auto simp: list_all2_conv_all_nth)

lemma as_dict_rel:
  "list_all2 (\<lambda>e1 e2. fst e1 = fst e2 \<and> same_but_excluded ign (snd e1) (snd e2)) d1 d2 \<Longrightarrow>
   same_but_excluded ign (as_dict d1) (as_dict d2)"
  unfolding as_dict_def
  by (rule same_but_excluded_dict) (simp add: list_all2_map1 list_all2_map2 list_all2_mono)

lemma recursive_hash_drops_excluded:
  "recursive_hash (PDict es) depth ign
     = recursive_hash (PDict (filter (\<lambda>entry. \<not> py_in (fst entry) ign) es)) depth ign"
  by (cases "MAX_DEPTH < depth")
     (simp_all add: recursive_hash_deep recursive_hash_PDict dict_text_def)

lemma arg_hash_drops_excluded:
  "arg_hash ign func h args n kwargs
     = arg_hash ign func h args n (filter (\<lambda>entry. fst entry \<notin> set ign) kwargs)"
  by (simp add: arg_hash_def kwargs_clone_def fold_dict_pop cong: sum.case_cong)

lemma x_4_hash:
  "recursive_hash (PDict [(PStr (lit ''x''), PInt 4)]) 0 [lit ''timestamp'']
     = Inr (lit ''467830e7a3c0acdc2dad7582d984c0bb'')"
  by (simp add: recursive_hash_eval py_str_int_4 x_not_timestamp md5_hex_x md5_hex_4 md5_hex_x_4)

lemma stamped_key:
  "arg_hash [lit ''timestamp''] stamped h [PInt 4, v] 0 []
     = Inr (lit ''467830e7a3c0acdc2dad7582d984c0bb'' @ lit ''aab55e58177f73981069d0d981dd92d6'' @ h)"
  by (simp add: arg_hash_def args_dict_def kwargs_clone_def dict_pop_def stamped_def as_dict_def
        reserved_name_def recursive_hash_eval py_str_int_0 py_str_int_4 x_not_timestamp
        reserved_not_timestamp md5_hex_x md5_hex_4 md5_hex_x_4 md5_hex_reserved md5_hex_0
        md5_hex_reserved_0)

lemma stamped_key_short:
  "arg_hash [lit ''timestamp''] stamped h [PInt 4] 0 []
     = Inr (lit ''467830e7a3c0acdc2dad7582d984c0bb'' @ lit ''aab55e58177f73981069d0d981dd92d6'' @ h)"
  by (simp add: arg_hash_def args_dict_def kwargs_clone_def dict_pop_def stamped_def as_dict_def
        reserved_name_def recursive_hash_eval py_str_int_0 py_str_int_4 x_not_timestamp
        reserved_not_timestamp md5_hex_x md5_hex_4 md5_hex_x_4 md5_hex_reserved md5_hex_0
        md5_hex_reserved_0)

lemma stamped_key_named:
  "arg_hash [lit ''timestamp''] stamped h [PInt 4] 0 [(lit ''timestamp'', v)]
     = Inr (lit ''467830e7a3c0acdc2dad7582d984c0bb'' @ lit ''aab55e58177f73981069d0d981dd92d6'' @ h)"
  by (simp add: arg_hash_def args_dict_def kwargs_clone_def dict_pop_def stamped_def as_dict_def
        reserved_name_def recursive_hash_eval py_str_int_0 py_str_int_4 x_not_timestamp
        reserved_not_timestamp md5_hex_x md5_hex_4 md5_hex_x_4 md5_hex_reserved md5_hex_0
        md5_hex_reserved_0)

lemma cache_key_stamped:
  "cache_key ign stamped args n kwargs = arg_hash ign stamped (lit ''6be61460b957cb6d5321042ca7b51343'') args n kwargs"
  by (simp add: cache_key_def hash_code_def stamped_def md5_hex_stamped_source)

text \<open>
  C3. Two values that differ only in values held under excluded names have equal
  fingerprints, at every depth, and an entry under an excluded key contributes nothing
  to the digest of a dictionary: the dictionary and the dictionary without its excluded
  entries have one fingerprint. Two calls whose mapped positional arguments and whose
  named arguments differ only in values under excluded names have equal Cache Keys; the
  key of a call is the key of the call without its excluded named arguments, and the
  record of mapped positional arguments holds no excluded name.
\<close>

theorem excluded_values_do_not_count:
  "(same_but_excluded ign v1 v2 \<longrightarrow> recursive_hash v1 depth ign = recursive_hash v2 depth ign)
   \<and> recursive_hash (PDict es) depth ign
       = recursive_hash (PDict (filter (\<lambda>entry. \<not> py_in (fst entry) ign) es)) depth ign
   \<and> (entries_same ign (zip (fn_args_names func) args1) (zip (fn_args_names func) args2)
        \<and> entries_same ign kwargs1 kwargs2
      \<longrightarrow> arg_hash ign func h args1 n kwargs1 = arg_hash ign func h args2 n kwargs2)
   \<and> arg_hash ign func h args n kwargs
       = arg_hash ign func h args n (filter (\<lambda>entry. fst entry \<notin> set ign) kwargs)
   \<and> args_dict ign func args
       = filter (\<lambda>entry. fst entry \<notin> set ign) (zip (fn_args_names func) args)"
proof (intro conjI impI)
  assume "same_but_excluded ign v1 v2"
  then show "recursive_hash v1 depth ign = recursive_hash v2 depth ign"
    by (rule same_but_excluded_hash)
next
  show "recursive_hash (PDict es) depth ign
       = recursive_hash (PDict (filter (\<lambda>entry. \<not> py_in (fst entry) ign) es)) depth ign"
    by (rule recursive_hash_drops_excluded)
next
  assume a: "entries_same ign (zip (fn_args_names func) args1) (zip (fn_args_names func) args2)
        \<and> entries_same ign kwargs1 kwargs2"
  have "same_but_excluded ign (as_dict (args_dict ign func args1)) (as_dict (args_dict ign func args2))"
    using a by (simp add: args_dict_def fold_dict_pop as_dict_rel entries_same_filter)
  moreover have "same_but_excluded ign (as_dict (kwargs_clone ign n kwargs1))
                   (as_dict (kwargs_clone ign n kwargs2))"
    using a by (simp add: kwargs_clone_def fold_dict_pop as_dict_rel dict_set_rel entries_same_filter)
  ultimately show "arg_hash ign func h args1 n kwargs1 = arg_hash ign func h args2 n kwargs2"
    by (simp add: arg_hash_def same_but_excluded_hash cong: sum.case_cong)
next
  show "arg_hash ign func h args n kwargs
       = arg_hash ign func h args n (filter (\<lambda>entry. fst entry \<notin> set ign) kwargs)"
    by (rule arg_hash_drops_excluded)
next
  show "args_dict ign func args
       = filter (\<lambda>entry. fst entry \<notin> set ign) (zip (fn_args_names func) args)"
    by (simp add: args_dict_def fold_dict_pop)
qed

theorem excluded_values_do_not_count_witness:
  "same_but_excluded [lit ''timestamp'']
     (PDict [(PStr (lit ''x''), PInt 4), (PStr (lit ''timestamp''), PInt 100)])
     (PDict [(PStr (lit ''x''), PInt 4), (PStr (lit ''timestamp''), PInt 200)])
   \<and> recursive_hash (PDict [(PStr (lit ''x''), PInt 4), (PStr (lit ''timestamp''), PInt 100)]) 0
        [lit ''timestamp'']
     = recursive_hash (PDict [(PStr (lit ''x''), PInt 4), (PStr (lit ''timestamp''), PInt 200)]) 0
        [lit ''timestamp'']
   \<and> recursive_hash (PDict [(PStr (lit ''x''), PInt 4), (PStr (lit ''timestamp''), PInt 100)]) 0
        [lit ''timestamp'']
     = recursive_hash (PDict [(PStr (lit ''x''), PInt 4)]) 0 [lit ''timestamp'']
   \<and> recursive_hash (PDict [(PStr (lit ''x''), PInt 4)]) 0 [lit ''timestamp'']
     = Inr (lit ''467830e7a3c0acdc2dad7582d984c0bb'')
   \<and> hash_code (fn_source stamped) = Inr (lit ''6be61460b957cb6d5321042ca7b51343'')
   \<and> arg_hash [lit ''timestamp''] stamped (lit ''6be61460b957cb6d5321042ca7b51343'')
        [PInt 4, PInt 100] 0 []
     = arg_hash [lit ''timestamp''] stamped (lit ''6be61460b957cb6d5321042ca7b51343'')
        [PInt 4, PInt 200] 0 []
   \<and> arg_hash [lit ''timestamp''] stamped (lit ''6be61460b957cb6d5321042ca7b51343'')
        [PInt 4] 0 [(lit ''timestamp'', PInt 100)]
     = arg_hash [lit ''timestamp''] stamped (lit ''6be61460b957cb6d5321042ca7b51343'')
        [PInt 4] 0 [(lit ''timestamp'', PInt 200)]
   \<and> arg_hash [lit ''timestamp''] stamped (lit ''6be61460b957cb6d5321042ca7b51343'')
        [PInt 4] 0 [(lit ''timestamp'', PInt 100)]
     = arg_hash [lit ''timestamp''] stamped (lit ''6be61460b957cb6d5321042ca7b51343'') [PInt 4] 0 []
   \<and> arg_hash [lit ''timestamp''] stamped (lit ''6be61460b957cb6d5321042ca7b51343'')
        [PInt 4, PInt 100] 0 []
     = Inr (lit ''467830e7a3c0acdc2dad7582d984c0bb'' @ lit ''aab55e58177f73981069d0d981dd92d6''
            @ lit ''6be61460b957cb6d5321042ca7b51343'')
   \<and> arg_hash [lit ''timestamp''] stamped (lit ''6be61460b957cb6d5321042ca7b51343'') [PInt 4] 0 []
     = Inr (lit ''467830e7a3c0acdc2dad7582d984c0bb'' @ lit ''aab55e58177f73981069d0d981dd92d6''
            @ lit ''6be61460b957cb6d5321042ca7b51343'')
   \<and> args_dict [lit ''timestamp''] stamped [PInt 4, PInt 100] = [(lit ''x'', PInt 4)]"
proof -
  let ?ts = "lit ''timestamp''"
  let ?h = "lit ''6be61460b957cb6d5321042ca7b51343''"
  let ?d1 = "PDict [(PStr (lit ''x''), PInt 4), (PStr ?ts, PInt 100)]"
  let ?d2 = "PDict [(PStr (lit ''x''), PInt 4), (PStr ?ts, PInt 200)]"
  have r: "same_but_excluded [?ts] ?d1 ?d2"
    by (rule same_but_excluded_dict) (simp add: py_in_def same_but_excluded.same)
  have pos: "entries_same [?ts] (zip (fn_args_names stamped) [PInt 4, PInt 100])
               (zip (fn_args_names stamped) [PInt 4, PInt 200])
           \<and> entries_same [?ts] [] []"
    by (simp add: entries_same_def stamped_def same_but_excluded.same)
  have named: "entries_same [?ts] (zip (fn_args_names stamped) [PInt 4])
               (zip (fn_args_names stamped) [PInt 4])
           \<and> entries_same [?ts] [(?ts, PInt 100)] [(?ts, PInt 200)]"
    by (simp add: entries_same_def stamped_def same_but_excluded.same)
  have src: "hash_code (fn_source stamped) = Inr ?h"
    by (simp add: hash_code_def stamped_def md5_hex_stamped_source)
  have f: "filter (\<lambda>entry. \<not> py_in (fst entry) [?ts]) [(PStr (lit ''x''), PInt 4), (PStr ?ts, PInt 100)]
         = [(PStr (lit ''x''), PInt 4)]"
    by (simp add: py_in_def x_not_timestamp)
  have g: "filter (\<lambda>entry. fst entry \<notin> set [?ts]) [(?ts, PInt 100)] = []"
    by simp
  have z: "filter (\<lambda>entry. fst entry \<notin> set [?ts]) (zip (fn_args_names stamped) [PInt 4, PInt 100])
         = [(lit ''x'', PInt 4)]"
    by (simp add: stamped_def x_not_timestamp)
  note t1 = excluded_values_do_not_count [where ign = "[?ts]" and ?v1.0 = ?d1 and ?v2.0 = ?d2
        and depth = 0 and es = "[(PStr (lit ''x''), PInt 4), (PStr ?ts, PInt 100)]"
        and func = stamped and ?args1.0 = "[PInt 4, PInt 100]" and ?args2.0 = "[PInt 4, PInt 200]"
        and ?kwargs1.0 = "[]" and ?kwargs2.0 = "[]" and h = ?h and n = 0
        and args = "[PInt 4, PInt 100]" and kwargs = "[]"]
  note t2 = excluded_values_do_not_count [where ign = "[?ts]" and ?v1.0 = ?d1 and ?v2.0 = ?d2
        and depth = 0 and es = "[]" and func = stamped
        and ?args1.0 = "[PInt 4]" and ?args2.0 = "[PInt 4]"
        and ?kwargs1.0 = "[(?ts, PInt 100)]" and ?kwargs2.0 = "[(?ts, PInt 200)]" and h = ?h and n = 0
        and args = "[PInt 4]" and kwargs = "[(?ts, PInt 100)]"]
  note c1 = t1 [THEN conjunct1, THEN mp, OF r]
  note c2 = t1 [THEN conjunct2, THEN conjunct1, unfolded f]
  note c3 = t1 [THEN conjunct2, THEN conjunct2, THEN conjunct1, THEN mp, OF pos]
  note c4 = t2 [THEN conjunct2, THEN conjunct2, THEN conjunct1, THEN mp, OF named]
  note c5 = t2 [THEN conjunct2, THEN conjunct2, THEN conjunct2, THEN conjunct1, unfolded g]
  note c6 = t1 [THEN conjunct2, THEN conjunct2, THEN conjunct2, THEN conjunct2, unfolded z]
  show ?thesis
    by (intro conjI r c1 c2 x_4_hash src c3 c4 c5 stamped_key stamped_key_short c6)
qed

section \<open>One call of the wrapped function\<close>

text \<open>
  A miss runs the body and tries to store its result; a hit returns the stored value and
  leaves the counter of runs alone; a failed read is a miss with a message logged; a
  failed write is logged and the result returned; an exception of the body is returned
  as it is and no file is written.
\<close>

lemma wrapper_miss:
  assumes "\<not> makedirs_fails flt"
      and "arg_hash ignore_params func h args n kwargs = Inr key"
      and "stat_fails flt \<or> files w (cache_file func key) = None"
  shows "wrapper ignore_params verbose func h flt args n kwargs w =
     (case fn_body func args kwargs of
        Inl e \<Rightarrow> (Inl e, w\<lparr>executions := Suc (executions w)\<rparr>)
      | Inr result \<Rightarrow> (Inr result, try_dump flt (cache_file func key) result
                                      (w\<lparr>executions := Suc (executions w)\<rparr>)))"
  using assms by (auto simp: wrapper_def try_load_def split: option.splits)

lemma wrapper_hit:
  assumes "\<not> makedirs_fails flt" "\<not> stat_fails flt" "\<not> open_rb_fails flt" "\<not> load_fails flt"
      and "arg_hash ignore_params func h args n kwargs = Inr key"
      and "files w (cache_file func key) = Some (Pickled v)"
  shows "wrapper ignore_params verbose func h flt args n kwargs w =
     (Inr v, if verbose
             then w\<lparr>printed := printed w @ [lit ''Used cache for function: '' @ fn_name func]\<rparr>
             else w)"
  using assms by (simp add: wrapper_def try_load_def)

lemma wrapper_read_failure:
  assumes "\<not> makedirs_fails flt"
      and "arg_hash ignore_params func h args n kwargs = Inr key"
      and "files w (cache_file func key) = Some content"
      and "\<not> stat_fails flt"
      and "open_rb_fails flt \<or> load_fails flt \<or> content = Corrupt"
  shows "fst (wrapper ignore_params verbose func h flt args n kwargs w) = fn_body func args kwargs
       \<and> logged (snd (wrapper ignore_params verbose func h flt args n kwargs w))
           = logged w @ [lit ''Unpickling failed'']
             @ (if (open_wb_fails flt \<or> dump_fails flt) \<and> \<not> isl (fn_body func args kwargs)
                then [lit ''Pickling failed: '' @ write_error flt] else [])"
  using assms
  by (cases content; cases "fn_body func args kwargs")
     (auto simp: wrapper_def try_load_def try_dump_def log_info_def Let_def)

lemma wrapper_write_failure:
  assumes "\<not> makedirs_fails flt"
      and "arg_hash ignore_params func h args n kwargs = Inr key"
      and "stat_fails flt \<or> files w (cache_file func key) = None"
      and "fn_body func args kwargs = Inr result"
      and "open_wb_fails flt \<or> dump_fails flt"
  shows "fst (wrapper ignore_params verbose func h flt args n kwargs w) = Inr result
       \<and> logged (snd (wrapper ignore_params verbose func h flt args n kwargs w))
           = logged w @ [lit ''Pickling failed: '' @ write_error flt]
       \<and> files (snd (wrapper ignore_params verbose func h flt args n kwargs w)) (cache_file func key)
           = (if open_wb_fails flt then files w (cache_file func key) else Some Corrupt)"
  using assms
  by (auto simp: wrapper_miss try_dump_def log_info_def)

lemma wrapper_body_raises:
  assumes "\<not> makedirs_fails flt"
      and "arg_hash ignore_params func h args n kwargs = Inr key"
      and "fn_body func args kwargs = Inl e"
      and "fst (wrapper ignore_params verbose func h flt args n kwargs w) = Inl e'"
  shows "e' = e \<and> files (snd (wrapper ignore_params verbose func h flt args n kwargs w)) = files w"
  using assms
  by (auto simp: wrapper_def try_load_def log_info_def Let_def split: option.splits blob.splits if_splits)

text \<open>
  C1, as the code has it. When the key is derived, no entry is stored under it yet, the
  body returns a result, the first call can create the directory and write the file, and
  the second call can create the directory and read the file, then the first call runs
  the body once and stores the result, and the second call returns the stored result
  without running the body: two calls, one run.
\<close>

theorem second_call_reads_the_store:
  assumes "\<not> makedirs_fails flt1" "\<not> open_wb_fails flt1" "\<not> dump_fails flt1"
      and "\<not> makedirs_fails flt2" "\<not> stat_fails flt2" "\<not> open_rb_fails flt2" "\<not> load_fails flt2"
      and "arg_hash ignore_params func h args n kwargs = Inr key"
      and "files w (cache_file func key) = None"
      and "fn_body func args kwargs = Inr result"
  shows "fst (wrapper ignore_params verbose func h flt1 args n kwargs w) = Inr result
       \<and> executions (snd (wrapper ignore_params verbose func h flt1 args n kwargs w)) = Suc (executions w)
       \<and> files (snd (wrapper ignore_params verbose func h flt1 args n kwargs w))
           = (files w)(cache_file func key \<mapsto> Pickled result)
       \<and> fst (wrapper ignore_params verbose func h flt2 args n kwargs
                (snd (wrapper ignore_params verbose func h flt1 args n kwargs w))) = Inr result
       \<and> executions (snd (wrapper ignore_params verbose func h flt2 args n kwargs
                (snd (wrapper ignore_params verbose func h flt1 args n kwargs w)))) = Suc (executions w)
       \<and> files (snd (wrapper ignore_params verbose func h flt2 args n kwargs
                (snd (wrapper ignore_params verbose func h flt1 args n kwargs w))))
           = (files w)(cache_file func key \<mapsto> Pickled result)"
proof -
  let ?w1 = "(w\<lparr>executions := Suc (executions w)\<rparr>)\<lparr>files := (files w)(cache_file func key \<mapsto> Pickled result)\<rparr>"
  have first: "wrapper ignore_params verbose func h flt1 args n kwargs w = (Inr result, ?w1)"
    using assms by (simp add: wrapper_miss try_dump_def)
  have second: "wrapper ignore_params verbose func h flt2 args n kwargs ?w1 =
     (Inr result, if verbose
        then ?w1\<lparr>printed := printed ?w1 @ [lit ''Used cache for function: '' @ fn_name func]\<rparr>
        else ?w1)"
    by (rule wrapper_hit [where key = key]) (use assms in simp_all)
  show ?thesis
    by (simp add: first second)
qed

section \<open>The calls of the example\<close>

lemma kwargs_hash_0:
  "recursive_hash (as_dict (kwargs_clone [] 0 [])) 0 [] = Inr (lit ''aab55e58177f73981069d0d981dd92d6'')"
  by (simp add: kwargs_clone_def as_dict_def reserved_name_def recursive_hash_eval py_str_int_0
        md5_hex_reserved md5_hex_0 md5_hex_reserved_0)

lemma kwargs_hash_1:
  "recursive_hash (as_dict (kwargs_clone [] 1 [])) 0 [] = Inr (lit ''df08626980dde8886c74486827c296f6'')"
  by (simp add: kwargs_clone_def as_dict_def reserved_name_def recursive_hash_eval py_str_int_1
        md5_hex_reserved md5_hex_1 md5_hex_reserved_1)

lemma square_args_hash:
  "recursive_hash (as_dict (args_dict [] square [PInt 4])) 0 [] = Inr (lit ''467830e7a3c0acdc2dad7582d984c0bb'')"
  by (simp add: args_dict_def square_def as_dict_def recursive_hash_eval py_str_int_4
        md5_hex_x md5_hex_4 md5_hex_x_4)

lemma square_args_hash_none:
  "recursive_hash (as_dict (args_dict [] square [POther])) 0 [] = Inr (lit ''dc3102ce5d82ec35da19fe0fb006ae72'')"
  by (simp add: args_dict_def square_def as_dict_def recursive_hash_eval
        md5_hex_x md5_hex_unknown md5_hex_x_unknown)

lemma square_args_hash_empty:
  "recursive_hash (as_dict (args_dict [] square [])) 0 [] = Inr (lit ''d41d8cd98f00b204e9800998ecf8427e'')"
  by (simp add: args_dict_def square_def as_dict_def recursive_hash_eval md5_hex_empty)

lemma kwargs_hash_x_0:
  "recursive_hash (as_dict (kwargs_clone [] 0 [(lit ''x'', PInt 4)])) 0 []
     = Inr (lit ''df40f228cb24768489f229cfeceb214b'')"
  by (simp add: kwargs_clone_def as_dict_def reserved_name_def recursive_hash_eval py_str_int_0
        py_str_int_4 x_not_reserved md5_hex_reserved md5_hex_0 md5_hex_x md5_hex_4 md5_hex_x_4_reserved_0)

lemma square_key:
  "arg_hash [] square h [PInt 4] 0 [] =
     Inr (lit ''467830e7a3c0acdc2dad7582d984c0bb'' @ lit ''aab55e58177f73981069d0d981dd92d6'' @ h)"
  by (simp add: arg_hash_def kwargs_hash_0 square_args_hash)

lemma square_key_1:
  "arg_hash [] square h [PInt 4] 1 [] =
     Inr (lit ''467830e7a3c0acdc2dad7582d984c0bb'' @ lit ''df08626980dde8886c74486827c296f6'' @ h)"
  by (simp add: arg_hash_def kwargs_hash_1 square_args_hash)

lemma square_key_none:
  "arg_hash [] square h [POther] 0 [] =
     Inr (lit ''dc3102ce5d82ec35da19fe0fb006ae72'' @ lit ''aab55e58177f73981069d0d981dd92d6'' @ h)"
  by (simp add: arg_hash_def kwargs_hash_0 square_args_hash_none)

lemma square_key_named:
  "arg_hash [] square h [] 0 [(lit ''x'', PInt 4)] =
     Inr (lit ''d41d8cd98f00b204e9800998ecf8427e'' @ lit ''df40f228cb24768489f229cfeceb214b'' @ h)"
  by (simp add: arg_hash_def kwargs_hash_x_0 square_args_hash_empty)

lemma file_cache_square:
  "file_cache [] verbose square = Inr (wrapper [] verbose square (lit ''59836d4a17728cb597d647f92c941097''))"
  by (simp add: file_cache_def decorator_def hash_code_def square_def md5_hex_square_source)

text \<open>
  C1. A computation that raises is run by every call: \<^verbatim>\<open>square(None)\<close>, called twice on
  a new cache with no failure of the store, runs the body twice and returns no result.
\<close>

theorem raising_computation_runs_twice:
  "file_cache [] False square = Inr (wrapper [] False square (lit ''59836d4a17728cb597d647f92c941097''))
   \<and> wrapper [] False square (lit ''59836d4a17728cb597d647f92c941097'') no_faults [POther] 0 []
        new_world
      = (Inl (Raised (lit ''TypeError'')), new_world\<lparr>executions := 1\<rparr>)
   \<and> wrapper [] False square (lit ''59836d4a17728cb597d647f92c941097'') no_faults [POther] 0 []
        (new_world\<lparr>executions := 1\<rparr>)
      = (Inl (Raised (lit ''TypeError'')), new_world\<lparr>executions := 2\<rparr>)"
  by (simp add: file_cache_square wrapper_def square_key_none)
     (simp add: try_load_def new_world_def no_faults_def square_def square_body_def)

theorem second_call_reads_the_store_witness:
  "arg_hash [] square (lit ''59836d4a17728cb597d647f92c941097'') [PInt 4] 0 []
     = Inr (lit ''467830e7a3c0acdc2dad7582d984c0bb'' @ lit ''aab55e58177f73981069d0d981dd92d6''
            @ lit ''59836d4a17728cb597d647f92c941097'')
   \<and> fn_body square [PInt 4] [] = Inr (PInt 16)
   \<and> fst (wrapper [] False square (lit ''59836d4a17728cb597d647f92c941097'') no_faults [PInt 4] 0 []
          new_world) = Inr (PInt 16)
   \<and> executions (snd (wrapper [] False square (lit ''59836d4a17728cb597d647f92c941097'') no_faults
          [PInt 4] 0 [] new_world)) = 1
   \<and> fst (wrapper [] False square (lit ''59836d4a17728cb597d647f92c941097'') no_faults [PInt 4] 0 []
          (snd (wrapper [] False square (lit ''59836d4a17728cb597d647f92c941097'') no_faults
             [PInt 4] 0 [] new_world))) = Inr (PInt 16)
   \<and> executions (snd (wrapper [] False square (lit ''59836d4a17728cb597d647f92c941097'') no_faults
          [PInt 4] 0 []
          (snd (wrapper [] False square (lit ''59836d4a17728cb597d647f92c941097'') no_faults
             [PInt 4] 0 [] new_world)))) = 1"
proof -
  have body: "fn_body square [PInt 4] [] = Inr (PInt 16)"
    by (simp add: square_def square_body_def)
  have fresh: "files new_world (cache_file square
      (lit ''467830e7a3c0acdc2dad7582d984c0bb'' @ lit ''aab55e58177f73981069d0d981dd92d6''
            @ lit ''59836d4a17728cb597d647f92c941097'')) = None"
    by (simp add: new_world_def)
  have ok: "\<not> makedirs_fails no_faults" "\<not> open_wb_fails no_faults" "\<not> dump_fails no_faults"
    "\<not> stat_fails no_faults" "\<not> open_rb_fails no_faults" "\<not> load_fails no_faults"
    by (simp_all add: no_faults_def)
  from second_call_reads_the_store [OF ok(1) ok(2) ok(3) ok(1) ok(4) ok(5) ok(6) square_key fresh body,
      of False]
  show ?thesis
    by (simp add: square_key body new_world_def)
qed

text \<open>
  C2. \<^verbatim>\<open>os.makedirs\<close> stands before both \<^verbatim>\<open>try\<close> blocks: when it raises, the call raises
  \<^verbatim>\<open>OSError\<close>, the body is not run and nothing else happens, although the body would
  have returned a result.
\<close>

theorem makedirs_failure_propagates:
  "wrapper ignore_params verbose func h (flt\<lparr>makedirs_fails := True\<rparr>) args n kwargs w
     = (Inl OSError, w)
   \<and> fst (wrapper [] False square (lit ''59836d4a17728cb597d647f92c941097'')
            (no_faults\<lparr>makedirs_fails := True\<rparr>) [PInt 4] 0 [] new_world) \<noteq> fn_body square [PInt 4] []"
  by (simp add: wrapper_def square_def square_body_def)

lemma wrapper_key_failure:
  "wrapper [] verbose square h no_faults [PStr [0xD800]] 0 [] w = (Inl UnicodeEncodeError, w)"
  by (simp add: wrapper_def no_faults_def arg_hash_def args_dict_def square_def as_dict_def
        recursive_hash_eval md5_hex_x)
     (simp add: md5_hex_def utf8_char_def)

section \<open>The Cache Key and the source text\<close>

lemma arg_hash_parts:
  assumes "arg_hash ign func h args n kwargs = Inr k"
  shows "\<exists>ha hk. recursive_hash (as_dict (args_dict ign func args)) 0 ign = Inr ha
               \<and> recursive_hash (as_dict (kwargs_clone ign n kwargs)) 0 ign = Inr hk
               \<and> k = ha @ hk @ h \<and> length ha = 32 \<and> length hk = 32"
  using assms
  by (auto simp: arg_hash_def split: sum.splits dest: recursive_hash_length)

lemma cache_key_parts:
  assumes "cache_key ign func args n kwargs = Inr k"
  shows "\<exists>ha hk h. recursive_hash (as_dict (args_dict ign func args)) 0 ign = Inr ha
               \<and> recursive_hash (as_dict (kwargs_clone ign n kwargs)) 0 ign = Inr hk
               \<and> hash_code (fn_source func) = Inr h
               \<and> k = ha @ hk @ h \<and> length ha = 32 \<and> length hk = 32 \<and> length h = 32"
proof -
  from assms obtain h where h: "hash_code (fn_source func) = Inr h"
      and a: "arg_hash ign func h args n kwargs = Inr k"
    by (auto simp: cache_key_def split: sum.splits)
  from h have "length h = 32"
    by (simp add: hash_code_def md5_hex_length)
  with arg_hash_parts [OF a] h show ?thesis
    by blast
qed

lemma cache_file_inj: "cache_file func k1 = cache_file func k2 \<Longrightarrow> k1 = k2"
  by (cases "fn_module func") (auto simp: cache_file_def path_join_def lit_def split: if_splits)

lemma cache_file_source [simp]: "cache_file (func\<lparr>fn_source := src\<rparr>) k = cache_file func k"
  by (simp add: cache_file_def)

lemma arg_hash_source [simp]:
  "arg_hash ign (func\<lparr>fn_source := src\<rparr>) h args n kwargs = arg_hash ign func h args n kwargs"
  by (simp add: arg_hash_def args_dict_def)

text \<open>
  C4, as the code has it. The behaviour signature is the digest of the source text,
  computed by the decorator and given to the wrapper; it is the last 32 characters of every
  Cache Key, after the two argument fingerprints. With the same name, parameters and
  arguments, the keys (and the cache files) before and after a change of the source differ
  exactly when the digests of the two source texts differ; then what was stored under the
  old key is not read by a call after the change, which misses unless the new key has an
  entry of its own.
\<close>

theorem source_digest_decides_key:
  assumes "cache_key ign (func\<lparr>fn_source := src1\<rparr>) args n kwargs = Inr k1"
      and "cache_key ign (func\<lparr>fn_source := src2\<rparr>) args n kwargs = Inr k2"
  shows "hash_code src1 = Inr (drop 64 k1) \<and> hash_code src2 = Inr (drop 64 k2)
       \<and> take 64 k1 = take 64 k2
       \<and> (k1 \<noteq> k2) = (hash_code src1 \<noteq> hash_code src2)
       \<and> (cache_file (func\<lparr>fn_source := src1\<rparr>) k1 \<noteq> cache_file (func\<lparr>fn_source := src2\<rparr>) k2)
           = (hash_code src1 \<noteq> hash_code src2)
       \<and> decorator ign verbose (func\<lparr>fn_source := src1\<rparr>)
           = Inr (wrapper ign verbose (func\<lparr>fn_source := src1\<rparr>) (drop 64 k1))
       \<and> (hash_code src1 \<noteq> hash_code src2
            \<and> files w (cache_file (func\<lparr>fn_source := src2\<rparr>) k2) = None
          \<longrightarrow> fst (try_load verbose (func\<lparr>fn_source := src2\<rparr>) flt2
                      (cache_file (func\<lparr>fn_source := src2\<rparr>) k2)
                      (try_dump flt1 (cache_file (func\<lparr>fn_source := src1\<rparr>) k1) result w))
                = None)"
proof -
  from cache_key_parts [OF assms(1)] obtain ha hk h1 where
    1: "recursive_hash (as_dict (args_dict ign func args)) 0 ign = Inr ha"
       "recursive_hash (as_dict (kwargs_clone ign n kwargs)) 0 ign = Inr hk"
       "hash_code src1 = Inr h1" "k1 = ha @ hk @ h1" "length ha = 32" "length hk = 32"
    by (auto simp: args_dict_def)
  from cache_key_parts [OF assms(2)] 1 obtain h2 where
    2: "hash_code src2 = Inr h2" "k2 = ha @ hk @ h2"
    by (auto simp: args_dict_def)
  have inj: "(k1 = k2) = (h1 = h2)"
    by (simp add: 1 2)
  have path: "(cache_file func k1 = cache_file func k2) = (k1 = k2)"
    by (auto dest: cache_file_inj)
  have miss: "fst (try_load verbose (func\<lparr>fn_source := src2\<rparr>) flt2 (cache_file func k2)
                 (try_dump flt1 (cache_file func k1) result w)) = None"
    if "cache_file func k1 \<noteq> cache_file func k2" "files w (cache_file func k2) = None"
    using that by (simp add: try_load_def try_dump_def log_info_def)
  show ?thesis
    using inj path miss by (simp add: 1 2 decorator_def)
qed

lemma cache_key_square:
  "cache_key [] (square\<lparr>fn_source := src\<rparr>) [PInt 4] n kwargs =
     (case hash_code src of Inl e \<Rightarrow> Inl e | Inr h \<Rightarrow> arg_hash [] square h [PInt 4] n kwargs)"
  by (simp add: cache_key_def cong: sum.case_cong)

theorem source_digest_decides_key_witness:
  "cache_key [] (square\<lparr>fn_source := square_source\<rparr>) [PInt 4] 0 []
     = Inr (lit ''467830e7a3c0acdc2dad7582d984c0bb'' @ lit ''aab55e58177f73981069d0d981dd92d6''
            @ lit ''59836d4a17728cb597d647f92c941097'')
   \<and> cache_key [] (square\<lparr>fn_source := square_source2\<rparr>) [PInt 4] 0 []
     = Inr (lit ''467830e7a3c0acdc2dad7582d984c0bb'' @ lit ''aab55e58177f73981069d0d981dd92d6''
            @ lit ''48fe5f4290081f922e128a0018877f0f'')
   \<and> hash_code square_source \<noteq> hash_code square_source2
   \<and> cache_file (square\<lparr>fn_source := square_source\<rparr>)
        (lit ''467830e7a3c0acdc2dad7582d984c0bb'' @ lit ''aab55e58177f73981069d0d981dd92d6''
            @ lit ''59836d4a17728cb597d647f92c941097'')
      \<noteq> cache_file (square\<lparr>fn_source := square_source2\<rparr>)
        (lit ''467830e7a3c0acdc2dad7582d984c0bb'' @ lit ''aab55e58177f73981069d0d981dd92d6''
            @ lit ''48fe5f4290081f922e128a0018877f0f'')
   \<and> fst (try_load False (square\<lparr>fn_source := square_source2\<rparr>) no_faults
          (cache_file (square\<lparr>fn_source := square_source2\<rparr>)
            (lit ''467830e7a3c0acdc2dad7582d984c0bb'' @ lit ''aab55e58177f73981069d0d981dd92d6''
              @ lit ''48fe5f4290081f922e128a0018877f0f''))
          (try_dump no_faults
            (cache_file (square\<lparr>fn_source := square_source\<rparr>)
              (lit ''467830e7a3c0acdc2dad7582d984c0bb'' @ lit ''aab55e58177f73981069d0d981dd92d6''
                @ lit ''59836d4a17728cb597d647f92c941097''))
            (PInt 16) new_world)) = None"
proof -
  have k1: "cache_key [] (square\<lparr>fn_source := square_source\<rparr>) [PInt 4] 0 []
     = Inr (lit ''467830e7a3c0acdc2dad7582d984c0bb'' @ lit ''aab55e58177f73981069d0d981dd92d6''
            @ lit ''59836d4a17728cb597d647f92c941097'')"
    by (simp add: cache_key_square hash_code_def md5_hex_square_source square_key)
  have k2: "cache_key [] (square\<lparr>fn_source := square_source2\<rparr>) [PInt 4] 0 []
     = Inr (lit ''467830e7a3c0acdc2dad7582d984c0bb'' @ lit ''aab55e58177f73981069d0d981dd92d6''
            @ lit ''48fe5f4290081f922e128a0018877f0f'')"
    by (simp add: cache_key_square hash_code_def md5_hex_square_source2 square_key)
  have ne: "hash_code square_source \<noteq> hash_code square_source2"
    by (simp add: hash_code_def md5_hex_square_source md5_hex_square_source2) (simp add: lit_def)
  have fresh: "files new_world p = None" for p
    by (simp add: new_world_def)
  from source_digest_decides_key [OF k1 k2, where verbose = False and w = new_world
      and ?flt1.0 = no_faults and ?flt2.0 = no_faults and result = "PInt 16"] ne k1 k2 fresh
  show ?thesis
    by simp
qed

lemma constant_source_ascii: "c \<in> set (fn_source (constant_fn k)) \<Longrightarrow> c < 128"
  by (auto simp: constant_fn_def lit_def dest: dec_digits)

lemma cache_key_constant:
  "cache_key [] (constant_fn k) [] 0 [] =
     Inr (lit ''d41d8cd98f00b204e9800998ecf8427e'' @ lit ''aab55e58177f73981069d0d981dd92d6''
          @ hexdigest (fn_source (constant_fn k)))"
proof -
  have "hash_code (fn_source (constant_fn k)) = Inr (hexdigest (fn_source (constant_fn k)))"
    unfolding hash_code_def by (rule md5_hex_ascii_eq) (rule constant_source_ascii)
  moreover have "recursive_hash (as_dict (args_dict [] (constant_fn k) [])) 0 []
      = Inr (lit ''d41d8cd98f00b204e9800998ecf8427e'')"
    by (simp add: args_dict_def as_dict_def recursive_hash_eval md5_hex_empty)
  ultimately show ?thesis
    by (simp add: cache_key_def arg_hash_def kwargs_hash_0)
qed

lemma digests_finite: "finite (range (\<lambda>k. hexdigest (f k)))"
proof (rule finite_subset)
  show "range (\<lambda>k. hexdigest (f k)) \<subseteq> {xs. set xs \<subseteq> {..<128} \<and> length xs = 32}"
    by (auto simp: length_hexdigest dest: hexdigest_ascii)
  show "finite {xs. set xs \<subseteq> {..<128::nat} \<and> length xs = 32}"
    by (rule finite_lists_length_eq) simp
qed

text \<open>
  Digests are texts of 32 ASCII characters: there are finitely many, so among the bodies
  \<^verbatim>\<open>return 0\<close>, \<^verbatim>\<open>return 1\<close>, ... two have one Cache Key.
\<close>

lemma constant_bodies_collide:
  "\<not> (\<forall>c d. c \<noteq> d \<longrightarrow> cache_key [] (constant_fn c) [] 0 [] \<noteq> cache_key [] (constant_fn d) [] 0 [])"
proof
  assume a: "\<forall>c d. c \<noteq> d \<longrightarrow> cache_key [] (constant_fn c) [] 0 [] \<noteq> cache_key [] (constant_fn d) [] 0 []"
  have "inj (\<lambda>k. hexdigest (fn_source (constant_fn k)))"
  proof (rule injI)
    fix c d
    assume "hexdigest (fn_source (constant_fn c)) = hexdigest (fn_source (constant_fn d))"
    then have "cache_key [] (constant_fn c) [] 0 [] = cache_key [] (constant_fn d) [] 0 []"
      by (simp add: cache_key_constant)
    with a show "c = d" by blast
  qed
  then have "finite (UNIV :: nat set)"
    using digests_finite [of "\<lambda>k. fn_source (constant_fn k)"] by (rule finite_imageD [rotated])
  then show False by simp
qed

text \<open>
  C4. A change of the source text need not change the Cache Key: the two colliding texts
  give one key, and two of the functions \<^verbatim>\<open>def f(): return c\<close> have one key.
\<close>

theorem colliding_sources_share_key:
  "collision_a \<noteq> collision_b
   \<and> cache_key [] (square\<lparr>fn_source := collision_a\<rparr>) [PInt 4] 0 []
     = Inr (lit ''467830e7a3c0acdc2dad7582d984c0bb'' @ lit ''aab55e58177f73981069d0d981dd92d6''
            @ lit ''faad49866e9498fc1719f5289e7a0269'')
   \<and> cache_key [] (square\<lparr>fn_source := collision_b\<rparr>) [PInt 4] 0 []
     = Inr (lit ''467830e7a3c0acdc2dad7582d984c0bb'' @ lit ''aab55e58177f73981069d0d981dd92d6''
            @ lit ''faad49866e9498fc1719f5289e7a0269'')
   \<and> \<not> (\<forall>c d. c \<noteq> d \<longrightarrow>
           cache_key [] (constant_fn c) [] 0 [] \<noteq> cache_key [] (constant_fn d) [] 0 [])"
proof -
  have "collision_a \<noteq> collision_b"
    by (simp add: collision_a_def collision_b_def lit_def)
  then show ?thesis
    by (simp add: cache_key_square hash_code_def md5_hex_collision_a md5_hex_collision_b square_key
          constant_bodies_collide)
qed

section \<open>The disambiguator\<close>

lemma dict_set_split: "\<exists>pre post. \<forall>v. dict_set k v d = pre @ (k, v) # post"
proof (induction d)
  case Nil
  have "\<forall>v. dict_set k v [] = [] @ (k, v) # []" by simp
  then show ?case by blast
next
  case (Cons e d)
  show ?case
  proof (cases "fst e = k")
    case True
    then have "\<forall>v. dict_set k v (e # d) = [] @ (k, v) # d" by simp
    then show ?thesis by blast
  next
    case False
    from Cons.IH obtain pre post where "\<forall>v. dict_set k v d = pre @ (k, v) # post" by blast
    with False have "\<forall>v. dict_set k v (e # d) = (e # pre) @ (k, v) # post" by simp
    then show ?thesis by blast
  qed
qed

lemma reserved_entry_hash:
  "entry_hash 0 ign (PStr reserved_name, PInt n)
     = (if int_max_str_digits < length (dec (nat \<bar>n\<bar>)) then Inl ValueError
        else Inr (hexdigest reserved_name @ hexdigest (str_int n)))"
  by (simp add: entry_hash_def recursive_hash_PStr recursive_hash_PInt MAX_DEPTH_def py_str_int_def
        md5_hex_ascii_eq reserved_name_ascii str_int_ascii)

lemma kwargs_text_shape:
  assumes "reserved_name \<notin> set ign"
  shows "\<exists>X Y. \<forall>n t. kwargs_text ign n kwargs = Inr t \<longrightarrow> t = X @ hexdigest (str_int n) @ Y"
proof -
  obtain pre post where parts:
    "\<forall>v. dict_set reserved_name v (fold dict_pop ign kwargs) = pre @ (reserved_name, v) # post"
    using dict_set_split by blast
  let ?keep = "\<lambda>entry :: pyval \<times> pyval. \<not> py_in (fst entry) ign"
  let ?f = "\<lambda>entry :: pystr \<times> pyval. (PStr (fst entry), snd entry)"
  let ?A = "collect (map (entry_hash 0 ign) (filter ?keep (map ?f pre)))"
  let ?B = "collect (map (entry_hash 0 ign) (filter ?keep (map ?f post)))"
  have shape: "kwargs_text ign n kwargs =
     (case ?A of
        Inl e \<Rightarrow> Inl e
      | Inr a \<Rightarrow>
          (if int_max_str_digits < length (dec (nat \<bar>n\<bar>)) then Inl ValueError
           else (case ?B of
              Inl e \<Rightarrow> Inl e
            | Inr b \<Rightarrow> Inr (concat a @ hexdigest reserved_name @ hexdigest (str_int n) @ concat b))))"
    for n
    using assms
    by (simp add: kwargs_text_def kwargs_clone_def parts dict_text_def py_in_def collect_append
          reserved_entry_hash split: sum.splits)
  show ?thesis
  proof (cases ?A)
    case (Inl e)
    then show ?thesis by (simp add: shape)
  next
    case a: (Inr a)
    show ?thesis
    proof (cases ?B)
      case (Inl e)
      with a show ?thesis by (simp add: shape)
    next
      case (Inr b)
      with a have "\<forall>n t. kwargs_text ign n kwargs = Inr t \<longrightarrow>
          t = (concat a @ hexdigest reserved_name) @ hexdigest (str_int n) @ concat b"
        by (simp add: shape)
      then show ?thesis by blast
    qed
  qed
qed

lemma kwargs_hash_text:
  "recursive_hash (as_dict (kwargs_clone ign n kwargs)) 0 ign =
     (case kwargs_text ign n kwargs of Inl e \<Rightarrow> Inl e | Inr t \<Rightarrow> md5_hex t)"
  by (simp add: as_dict_def kwargs_text_def recursive_hash_PDict MAX_DEPTH_def)

text \<open>
  C7, as the code has it. The disambiguator is stored in the record of named arguments
  under the reserved name before the record is digested. When the reserved name is not
  excluded, two calls that differ only in the disambiguator have different Cache Keys
  and different cache files, unless MD5 has a collision on the decimal texts of the two
  disambiguators or on the texts of the two records.
\<close>

theorem disambiguator_changes_key:
  assumes "reserved_name \<notin> set ign" and "n1 \<noteq> n2"
      and "cache_key ign func args n1 kwargs = Inr k1"
      and "cache_key ign func args n2 kwargs = Inr k2"
      and "kwargs_text ign n1 kwargs = Inr t1"
      and "kwargs_text ign n2 kwargs = Inr t2"
      and "\<not> md5_collision (str_int n1) (str_int n2)"
      and "\<not> md5_collision t1 t2"
  shows "k1 \<noteq> k2 \<and> cache_file func k1 \<noteq> cache_file func k2"
proof -
  from cache_key_parts [OF assms(3)] obtain ha hk1 h where
    1: "recursive_hash (as_dict (args_dict ign func args)) 0 ign = Inr ha"
       "recursive_hash (as_dict (kwargs_clone ign n1 kwargs)) 0 ign = Inr hk1"
       "hash_code (fn_source func) = Inr h" "k1 = ha @ hk1 @ h" "length ha = 32" "length hk1 = 32"
    by blast
  from cache_key_parts [OF assms(4)] 1 obtain hk2 where
    2: "recursive_hash (as_dict (kwargs_clone ign n2 kwargs)) 0 ign = Inr hk2"
       "k2 = ha @ hk2 @ h" "length hk2 = 32"
    by auto
  have d1: "md5_hex t1 = Inr hk1" and d2: "md5_hex t2 = Inr hk2"
    using 1(2) 2(1) assms(5,6) by (simp_all add: kwargs_hash_text)
  have "hk1 \<noteq> hk2"
  proof
    assume same: "hk1 = hk2"
    with d1 d2 assms(8) have "t1 = t2"
      by (auto simp: md5_collision_def)
    moreover from kwargs_text_shape [OF assms(1), of kwargs] obtain X Y where
      "t1 = X @ hexdigest (str_int n1) @ Y" "t2 = X @ hexdigest (str_int n2) @ Y"
      using assms(5,6) by blast
    ultimately have "hexdigest (str_int n1) = hexdigest (str_int n2)"
      by (simp add: length_hexdigest)
    then have "md5_hex (str_int n1) = md5_hex (str_int n2)" "\<not> isl (md5_hex (str_int n1))"
      by (simp_all add: md5_hex_ascii_eq str_int_ascii)
    with assms(7) have "str_int n1 = str_int n2"
      by (auto simp: md5_collision_def)
    with assms(2) show False by (auto dest: str_int_inj)
  qed
  then have "k1 \<noteq> k2" by (simp add: 1 2)
  then show ?thesis by (auto dest: cache_file_inj)
qed

lemma cache_key_square_plain:
  "cache_key ign square args n kwargs = arg_hash ign square (lit ''59836d4a17728cb597d647f92c941097'') args n kwargs"
  by (simp add: cache_key_def hash_code_def square_def md5_hex_square_source)

lemma kwargs_text_0: "kwargs_text [] 0 [] = Inr (lit ''eb086c36621f35b70fe066e67a0c77af'' @ lit ''cfcd208495d565ef66e7dff9f98764da'')"
  by (simp add: kwargs_text_def kwargs_clone_def reserved_name_def recursive_hash_eval py_str_int_0
        md5_hex_reserved md5_hex_0)

lemma kwargs_text_1: "kwargs_text [] 1 [] = Inr (lit ''eb086c36621f35b70fe066e67a0c77af'' @ lit ''c4ca4238a0b923820dcc509a6f75849b'')"
  by (simp add: kwargs_text_def kwargs_clone_def reserved_name_def recursive_hash_eval py_str_int_1
        md5_hex_reserved md5_hex_1)

lemma no_collision_0_1: "\<not> md5_collision (str_int 0) (str_int 1)"
  by (simp add: md5_collision_def str_int_0 str_int_1 md5_hex_0 md5_hex_1) (simp add: lit_def)

lemma no_collision_reserved_0_1: "\<not> md5_collision (lit ''eb086c36621f35b70fe066e67a0c77af'' @ lit ''cfcd208495d565ef66e7dff9f98764da'') (lit ''eb086c36621f35b70fe066e67a0c77af'' @ lit ''c4ca4238a0b923820dcc509a6f75849b'')"
  by (simp add: md5_collision_def md5_hex_reserved_0 md5_hex_reserved_1) (simp add: lit_def)

theorem disambiguator_changes_key_witness:
  "reserved_name \<notin> set [] \<and> (0::int) \<noteq> 1
   \<and> cache_key [] square [PInt 4] 0 [] = Inr (lit ''467830e7a3c0acdc2dad7582d984c0bb'' @ lit ''aab55e58177f73981069d0d981dd92d6'' @ lit ''59836d4a17728cb597d647f92c941097'')
   \<and> cache_key [] square [PInt 4] 1 [] = Inr (lit ''467830e7a3c0acdc2dad7582d984c0bb'' @ lit ''df08626980dde8886c74486827c296f6'' @ lit ''59836d4a17728cb597d647f92c941097'')
   \<and> \<not> md5_collision (str_int 0) (str_int 1)
   \<and> \<not> md5_collision (lit ''eb086c36621f35b70fe066e67a0c77af'' @ lit ''cfcd208495d565ef66e7dff9f98764da'') (lit ''eb086c36621f35b70fe066e67a0c77af'' @ lit ''c4ca4238a0b923820dcc509a6f75849b'')
   \<and> lit ''467830e7a3c0acdc2dad7582d984c0bb'' @ lit ''aab55e58177f73981069d0d981dd92d6'' @ lit ''59836d4a17728cb597d647f92c941097'' \<noteq> lit ''467830e7a3c0acdc2dad7582d984c0bb'' @ lit ''df08626980dde8886c74486827c296f6'' @ lit ''59836d4a17728cb597d647f92c941097''
   \<and> cache_file square (lit ''467830e7a3c0acdc2dad7582d984c0bb'' @ lit ''aab55e58177f73981069d0d981dd92d6'' @ lit ''59836d4a17728cb597d647f92c941097'') \<noteq> cache_file square (lit ''467830e7a3c0acdc2dad7582d984c0bb'' @ lit ''df08626980dde8886c74486827c296f6'' @ lit ''59836d4a17728cb597d647f92c941097'')"
proof -
  have k0: "cache_key [] square [PInt 4] 0 [] = Inr (lit ''467830e7a3c0acdc2dad7582d984c0bb'' @ lit ''aab55e58177f73981069d0d981dd92d6'' @ lit ''59836d4a17728cb597d647f92c941097'')"
    by (simp add: cache_key_square_plain square_key)
  have k1: "cache_key [] square [PInt 4] 1 [] = Inr (lit ''467830e7a3c0acdc2dad7582d984c0bb'' @ lit ''df08626980dde8886c74486827c296f6'' @ lit ''59836d4a17728cb597d647f92c941097'')"
    by (simp add: cache_key_square_plain square_key_1)
  have r: "reserved_name \<notin> set []" and n: "(0::int) \<noteq> 1"
    by simp_all
  from disambiguator_changes_key [OF r n k0 k1 kwargs_text_0 kwargs_text_1 no_collision_0_1
      no_collision_reserved_0_1]
  show ?thesis
    using k0 k1 no_collision_0_1 no_collision_reserved_0_1 by simp
qed

text \<open>
  C7. When the reserved name is itself excluded, the entry of the disambiguator is
  filtered out of the digest: the calls with disambiguator 0 and 1 have one Cache Key.
\<close>

theorem excluded_disambiguator_is_ignored:
  "cache_key [reserved_name] square [PInt 4] 0 [] = Inr (lit ''467830e7a3c0acdc2dad7582d984c0bb'' @ lit ''d41d8cd98f00b204e9800998ecf8427e'' @ lit ''59836d4a17728cb597d647f92c941097'')
   \<and> cache_key [reserved_name] square [PInt 4] 1 [] = Inr (lit ''467830e7a3c0acdc2dad7582d984c0bb'' @ lit ''d41d8cd98f00b204e9800998ecf8427e'' @ lit ''59836d4a17728cb597d647f92c941097'')"
proof -
  have a: "recursive_hash (as_dict (args_dict [reserved_name] square [PInt 4])) 0 [reserved_name]
      = Inr (lit ''467830e7a3c0acdc2dad7582d984c0bb'')"
    by (simp add: args_dict_def dict_pop_def square_def as_dict_def reserved_name_def x_not_reserved
          recursive_hash_eval py_str_int_4 md5_hex_x md5_hex_4 md5_hex_x_4)
  have k: "recursive_hash (as_dict (kwargs_clone [reserved_name] n [])) 0 [reserved_name]
      = Inr (lit ''d41d8cd98f00b204e9800998ecf8427e'')" for n
    by (simp add: kwargs_clone_def dict_pop_def as_dict_def recursive_hash_eval md5_hex_empty)
  show ?thesis
    by (simp add: cache_key_square_plain arg_hash_def a k)
qed

section \<open>Positional and named arguments\<close>

text \<open>
  C8. \<^verbatim>\<open>square(4)\<close> and \<^verbatim>\<open>square(x=4)\<close> have different Cache Keys: the value is digested
  in the first record by the one call and in the second record by the other.
\<close>

theorem positional_and_named_keys_differ:
  "cache_key [] square [PInt 4] 0 [] = Inr (lit ''467830e7a3c0acdc2dad7582d984c0bb'' @ lit ''aab55e58177f73981069d0d981dd92d6'' @ lit ''59836d4a17728cb597d647f92c941097'')
   \<and> cache_key [] square [] 0 [(lit ''x'', PInt 4)] = Inr (lit ''d41d8cd98f00b204e9800998ecf8427e'' @ lit ''df40f228cb24768489f229cfeceb214b'' @ lit ''59836d4a17728cb597d647f92c941097'')
   \<and> cache_key [] square [PInt 4] 0 [] \<noteq> cache_key [] square [] 0 [(lit ''x'', PInt 4)]"
  by (simp add: cache_key_square_plain square_key square_key_named) (simp add: lit_def)

lemma zip_append_Cons:
  "length pre < length names \<Longrightarrow>
   zip names (pre @ v # rest)
     = zip names pre @ (names ! length pre, v) # zip (drop (Suc (length pre)) names) rest"
proof (induction names arbitrary: pre)
  case Nil
  then show ?case by simp
next
  case (Cons a names)
  then show ?case by (cases pre) simp_all
qed

lemma args_hash_text:
  "recursive_hash (as_dict (args_dict ign func args)) 0 ign =
     (case args_text ign func args of Inl e \<Rightarrow> Inl e | Inr t \<Rightarrow> md5_hex t)"
  by (simp add: as_dict_def args_text_def recursive_hash_PDict MAX_DEPTH_def)

lemma entry_hash_length:
  assumes "entry_hash d ign entry = Inr h"
  shows "length h = 64"
proof -
  from assms obtain hk hv where "recursive_hash (fst entry) (d + 1) ign = Inr hk"
      and "recursive_hash (snd entry) (d + 1) ign = Inr hv" and "h = hk @ hv"
    by (auto simp: entry_hash_def split: sum.splits)
  then show ?thesis
    using recursive_hash_length [of "fst entry" "d + 1" ign hk]
      recursive_hash_length [of "snd entry" "d + 1" ign hv] by simp
qed

lemma args_text_longer:
  assumes "length pre < length (fn_args_names func)"
      and "fn_args_names func ! length pre \<notin> set ign"
      and "args_text ign func (pre @ v # rest) = Inr tp"
      and "args_text ign func pre = Inr tn"
  shows "length tn < length tp"
proof -
  let ?keep = "\<lambda>entry :: pyval \<times> pyval. \<not> py_in (fst entry) ign"
  let ?f = "\<lambda>entry :: pystr \<times> pyval. (PStr (fst entry), snd entry)"
  let ?x = "fn_args_names func ! length pre"
  let ?A = "filter (\<lambda>entry. fst entry \<notin> set ign) (zip (fn_args_names func) pre)"
  let ?B = "filter (\<lambda>entry. fst entry \<notin> set ign)
              (zip (drop (Suc (length pre)) (fn_args_names func)) rest)"
  have rec: "args_dict ign func (pre @ v # rest) = ?A @ (?x, v) # ?B"
    using assms(1,2) by (simp add: args_dict_def fold_dict_pop zip_append_Cons)
  have rec0: "args_dict ign func pre = ?A"
    by (simp add: args_dict_def fold_dict_pop)
  from assms(4) obtain a where a: "collect (map (entry_hash 0 ign) (filter ?keep (map ?f ?A))) = Inr a"
      and tn: "tn = concat a"
    by (auto simp: args_text_def rec0 dict_text_def split: sum.splits)
  from assms(3) assms(2) a obtain h b where "entry_hash 0 ign (PStr ?x, v) = Inr h"
      and tp: "tp = concat a @ h @ concat b"
    by (auto simp: args_text_def rec dict_text_def py_in_def collect_append split: sum.splits)
  then have "length h = 64" by (auto dest: entry_hash_length)
  with tn tp show ?thesis by simp
qed

lemma cache_key_shape:
  assumes "cache_key ign func args n kwargs = Inr k"
  shows "recursive_hash (as_dict (args_dict ign func args)) 0 ign = Inr (take 32 k)
       \<and> recursive_hash (as_dict (kwargs_clone ign n kwargs)) 0 ign = Inr (take 32 (drop 32 k))
       \<and> hash_code (fn_source func) = Inr (drop 64 k)
       \<and> length k = 96"
  using cache_key_parts [OF assms] by auto

lemma positional_record_differs:
  assumes "length pre < length (fn_args_names func)"
      and "fn_args_names func ! length pre \<notin> set ign"
      and "cache_key ign func (pre @ v # rest) n kwargs = Inr kp"
      and "cache_key ign func pre n kwargs' = Inr kn"
      and "args_text ign func (pre @ v # rest) = Inr tp"
      and "args_text ign func pre = Inr tn"
      and "\<not> md5_collision tp tn"
  shows "kp \<noteq> kn \<and> take 32 kp \<noteq> take 32 kn
       \<and> md5_hex tp = Inr (take 32 kp) \<and> md5_hex tn = Inr (take 32 kn)"
proof -
  have p: "md5_hex tp = Inr (take 32 kp)"
    using cache_key_shape [OF assms(3)] assms(5) by (simp add: args_hash_text)
  have q: "md5_hex tn = Inr (take 32 kn)"
    using cache_key_shape [OF assms(4)] assms(6) by (simp add: args_hash_text)
  have "tp \<noteq> tn"
    using args_text_longer [OF assms(1,2,5,6)] by auto
  with p q assms(7) have "take 32 kp \<noteq> take 32 kn"
    by (auto simp: md5_collision_def)
  with p q show ?thesis by auto
qed

lemma excluded_parameter_same_key:
  assumes "length pre < length (fn_args_names func)"
      and "fn_args_names func ! length pre \<in> set ign"
  shows "cache_key ign func (pre @ [v]) n kwargs
       = cache_key ign func pre n (kwargs @ [(fn_args_names func ! length pre, v)])"
proof -
  have "args_dict ign func (pre @ [v]) = args_dict ign func pre"
    using assms by (simp add: args_dict_def fold_dict_pop zip_append_Cons)
  moreover have "kwargs_clone ign n (kwargs @ [(fn_args_names func ! length pre, v)])
               = kwargs_clone ign n kwargs"
    using assms by (simp add: kwargs_clone_def fold_dict_pop)
  ultimately show ?thesis
    by (simp add: cache_key_def arg_hash_def cong: sum.case_cong)
qed

text \<open>
  C8, as the code has it. On every call the mapped positional arguments and the named
  arguments are two records: the parameter names zipped with the positional arguments,
  and the named arguments with the disambiguator set under the reserved name, both
  without the excluded names. They are never merged: a Cache Key has 96 characters, the
  fingerprint of the positional record, the fingerprint of the named record and the
  behaviour signature. So, for every function and every parameter that is not excluded, a
  call that gives a value for the parameter by position and a call that gives by position
  only the arguments before it (and the value by name, or any other named arguments) have
  different keys, which differ in their first 32 characters already, unless MD5 has a
  collision on the texts of the two positional records. When the parameter is excluded,
  the call with the value given by position and the call with it given by name have one
  key.
\<close>

theorem records_are_hashed_apart:
  "args_dict ign func args
     = filter (\<lambda>entry. fst entry \<notin> set ign) (zip (fn_args_names func) args)
   \<and> kwargs_clone ign n kwargs
     = dict_set reserved_name (PInt n) (filter (\<lambda>entry. fst entry \<notin> set ign) kwargs)
   \<and> (cache_key ign func args n kwargs = Inr k \<longrightarrow>
        recursive_hash (as_dict (args_dict ign func args)) 0 ign = Inr (take 32 k)
      \<and> recursive_hash (as_dict (kwargs_clone ign n kwargs)) 0 ign = Inr (take 32 (drop 32 k))
      \<and> hash_code (fn_source func) = Inr (drop 64 k)
      \<and> length k = 96)
   \<and> (length pre < length (fn_args_names func)
        \<and> fn_args_names func ! length pre \<notin> set ign
        \<and> cache_key ign func (pre @ v # rest) n kwargs1 = Inr kp
        \<and> cache_key ign func pre n kwargs2 = Inr kn
        \<and> args_text ign func (pre @ v # rest) = Inr tp
        \<and> args_text ign func pre = Inr tn
        \<and> \<not> md5_collision tp tn
      \<longrightarrow> kp \<noteq> kn \<and> take 32 kp \<noteq> take 32 kn
          \<and> md5_hex tp = Inr (take 32 kp) \<and> md5_hex tn = Inr (take 32 kn))
   \<and> (length pre < length (fn_args_names func)
        \<and> fn_args_names func ! length pre \<in> set ign
      \<longrightarrow> cache_key ign func (pre @ [v]) n kwargs
          = cache_key ign func pre n (kwargs @ [(fn_args_names func ! length pre, v)]))"
proof (intro conjI impI)
  show "args_dict ign func args
     = filter (\<lambda>entry. fst entry \<notin> set ign) (zip (fn_args_names func) args)"
    by (simp add: args_dict_def fold_dict_pop)
  show "kwargs_clone ign n kwargs
     = dict_set reserved_name (PInt n) (filter (\<lambda>entry. fst entry \<notin> set ign) kwargs)"
    by (simp add: kwargs_clone_def fold_dict_pop)
next
  assume k: "cache_key ign func args n kwargs = Inr k"
  from cache_key_shape [OF k]
  show "recursive_hash (as_dict (args_dict ign func args)) 0 ign = Inr (take 32 k)"
    and "recursive_hash (as_dict (kwargs_clone ign n kwargs)) 0 ign = Inr (take 32 (drop 32 k))"
    and "hash_code (fn_source func) = Inr (drop 64 k)"
    and "length k = 96"
    by simp_all
next
  assume a: "length pre < length (fn_args_names func)
        \<and> fn_args_names func ! length pre \<notin> set ign
        \<and> cache_key ign func (pre @ v # rest) n kwargs1 = Inr kp
        \<and> cache_key ign func pre n kwargs2 = Inr kn
        \<and> args_text ign func (pre @ v # rest) = Inr tp
        \<and> args_text ign func pre = Inr tn
        \<and> \<not> md5_collision tp tn"
  then have "length pre < length (fn_args_names func)"
      and "fn_args_names func ! length pre \<notin> set ign"
      and "cache_key ign func (pre @ v # rest) n kwargs1 = Inr kp"
      and "cache_key ign func pre n kwargs2 = Inr kn"
      and "args_text ign func (pre @ v # rest) = Inr tp"
      and "args_text ign func pre = Inr tn"
      and "\<not> md5_collision tp tn"
    by simp_all
  then have "kp \<noteq> kn \<and> take 32 kp \<noteq> take 32 kn
       \<and> md5_hex tp = Inr (take 32 kp) \<and> md5_hex tn = Inr (take 32 kn)"
    by (rule positional_record_differs)
  then show "kp \<noteq> kn" and "take 32 kp \<noteq> take 32 kn"
    and "md5_hex tp = Inr (take 32 kp)" and "md5_hex tn = Inr (take 32 kn)"
    by simp_all
next
  assume "length pre < length (fn_args_names func)
        \<and> fn_args_names func ! length pre \<in> set ign"
  then show "cache_key ign func (pre @ [v]) n kwargs
          = cache_key ign func pre n (kwargs @ [(fn_args_names func ! length pre, v)])"
    by (simp add: excluded_parameter_same_key)
qed


lemma square_args_text: "args_text [] square [PInt 4] = Inr (lit ''9dd4e461268c8034f5c8564e155c67a6'' @ lit ''a87ff679a2f3e71d9181a67b7542122c'')"
  by (simp add: args_text_def args_dict_def square_def recursive_hash_eval py_str_int_4
        md5_hex_x md5_hex_4)

lemma square_args_text_empty: "args_text [] square [] = Inr []"
  by (simp add: args_text_def args_dict_def dict_text_def)

lemma no_collision_x_4_empty: "\<not> md5_collision (lit ''9dd4e461268c8034f5c8564e155c67a6'' @ lit ''a87ff679a2f3e71d9181a67b7542122c'') []"
  by (simp add: md5_collision_def md5_hex_x_4 md5_hex_empty) (simp add: lit_def)

theorem records_are_hashed_apart_witness:
  "length ([] :: pyval list) < length (fn_args_names square)
   \<and> fn_args_names square ! length ([] :: pyval list) \<notin> set []
   \<and> cache_key [] square [PInt 4] 0 [] = Inr (lit ''467830e7a3c0acdc2dad7582d984c0bb'' @ lit ''aab55e58177f73981069d0d981dd92d6'' @ lit ''59836d4a17728cb597d647f92c941097'')
   \<and> cache_key [] square [] 0 [(lit ''x'', PInt 4)] = Inr (lit ''d41d8cd98f00b204e9800998ecf8427e'' @ lit ''df40f228cb24768489f229cfeceb214b'' @ lit ''59836d4a17728cb597d647f92c941097'')
   \<and> args_text [] square [PInt 4] = Inr (lit ''9dd4e461268c8034f5c8564e155c67a6'' @ lit ''a87ff679a2f3e71d9181a67b7542122c'')
   \<and> args_text [] square [] = Inr []
   \<and> \<not> md5_collision (lit ''9dd4e461268c8034f5c8564e155c67a6'' @ lit ''a87ff679a2f3e71d9181a67b7542122c'') []
   \<and> lit ''467830e7a3c0acdc2dad7582d984c0bb'' @ lit ''aab55e58177f73981069d0d981dd92d6'' @ lit ''59836d4a17728cb597d647f92c941097'' \<noteq> lit ''d41d8cd98f00b204e9800998ecf8427e'' @ lit ''df40f228cb24768489f229cfeceb214b'' @ lit ''59836d4a17728cb597d647f92c941097''
   \<and> take 32 (lit ''467830e7a3c0acdc2dad7582d984c0bb'' @ lit ''aab55e58177f73981069d0d981dd92d6'' @ lit ''59836d4a17728cb597d647f92c941097'') \<noteq> take 32 (lit ''d41d8cd98f00b204e9800998ecf8427e'' @ lit ''df40f228cb24768489f229cfeceb214b'' @ lit ''59836d4a17728cb597d647f92c941097'')
   \<and> md5_hex (lit ''9dd4e461268c8034f5c8564e155c67a6'' @ lit ''a87ff679a2f3e71d9181a67b7542122c'') = Inr (take 32 (lit ''467830e7a3c0acdc2dad7582d984c0bb'' @ lit ''aab55e58177f73981069d0d981dd92d6'' @ lit ''59836d4a17728cb597d647f92c941097''))
   \<and> md5_hex [] = Inr (take 32 (lit ''d41d8cd98f00b204e9800998ecf8427e'' @ lit ''df40f228cb24768489f229cfeceb214b'' @ lit ''59836d4a17728cb597d647f92c941097''))
   \<and> take 32 (lit ''467830e7a3c0acdc2dad7582d984c0bb'' @ lit ''aab55e58177f73981069d0d981dd92d6'' @ lit ''59836d4a17728cb597d647f92c941097'') = lit ''467830e7a3c0acdc2dad7582d984c0bb''
   \<and> take 32 (lit ''d41d8cd98f00b204e9800998ecf8427e'' @ lit ''df40f228cb24768489f229cfeceb214b'' @ lit ''59836d4a17728cb597d647f92c941097'') = lit ''d41d8cd98f00b204e9800998ecf8427e''
   \<and> args_dict [] square [PInt 4] = [(lit ''x'', PInt 4)]
   \<and> kwargs_clone [] 0 [] = [(reserved_name, PInt 0)]
   \<and> args_dict [] square [] = []
   \<and> kwargs_clone [] 0 [(lit ''x'', PInt 4)] = [(lit ''x'', PInt 4), (reserved_name, PInt 0)]
   \<and> recursive_hash (as_dict (args_dict [] square [PInt 4])) 0 [] = Inr (take 32 (lit ''467830e7a3c0acdc2dad7582d984c0bb'' @ lit ''aab55e58177f73981069d0d981dd92d6'' @ lit ''59836d4a17728cb597d647f92c941097''))
   \<and> recursive_hash (as_dict (kwargs_clone [] 0 [])) 0 [] = Inr (take 32 (drop 32 (lit ''467830e7a3c0acdc2dad7582d984c0bb'' @ lit ''aab55e58177f73981069d0d981dd92d6'' @ lit ''59836d4a17728cb597d647f92c941097'')))
   \<and> hash_code (fn_source square) = Inr (drop 64 (lit ''467830e7a3c0acdc2dad7582d984c0bb'' @ lit ''aab55e58177f73981069d0d981dd92d6'' @ lit ''59836d4a17728cb597d647f92c941097''))
   \<and> length (lit ''467830e7a3c0acdc2dad7582d984c0bb'' @ lit ''aab55e58177f73981069d0d981dd92d6'' @ lit ''59836d4a17728cb597d647f92c941097'') = 96
   \<and> take 32 (drop 32 (lit ''467830e7a3c0acdc2dad7582d984c0bb'' @ lit ''aab55e58177f73981069d0d981dd92d6'' @ lit ''59836d4a17728cb597d647f92c941097'')) = lit ''aab55e58177f73981069d0d981dd92d6''
   \<and> drop 64 (lit ''467830e7a3c0acdc2dad7582d984c0bb'' @ lit ''aab55e58177f73981069d0d981dd92d6'' @ lit ''59836d4a17728cb597d647f92c941097'') = lit ''59836d4a17728cb597d647f92c941097''
   \<and> length [PInt 4] < length (fn_args_names stamped)
   \<and> fn_args_names stamped ! length [PInt 4] \<in> set [lit ''timestamp'']
   \<and> cache_key [lit ''timestamp''] stamped [PInt 4, PInt 100] 0 []
       = cache_key [lit ''timestamp''] stamped [PInt 4] 0 [(lit ''timestamp'', PInt 100)]
   \<and> cache_key [lit ''timestamp''] stamped [PInt 4, PInt 100] 0 [] = Inr (lit ''467830e7a3c0acdc2dad7582d984c0bb'' @ lit ''aab55e58177f73981069d0d981dd92d6'' @ lit ''6be61460b957cb6d5321042ca7b51343'')
   \<and> cache_key [lit ''timestamp''] stamped [PInt 4] 0 [(lit ''timestamp'', PInt 100)] = Inr (lit ''467830e7a3c0acdc2dad7582d984c0bb'' @ lit ''aab55e58177f73981069d0d981dd92d6'' @ lit ''6be61460b957cb6d5321042ca7b51343'')"
proof -
  have kp: "cache_key [] square ([] @ PInt 4 # []) 0 [] = Inr (lit ''467830e7a3c0acdc2dad7582d984c0bb'' @ lit ''aab55e58177f73981069d0d981dd92d6'' @ lit ''59836d4a17728cb597d647f92c941097'')"
    by (simp add: cache_key_square_plain square_key)
  have kn: "cache_key [] square [] 0 [(lit ''x'', PInt 4)] = Inr (lit ''d41d8cd98f00b204e9800998ecf8427e'' @ lit ''df40f228cb24768489f229cfeceb214b'' @ lit ''59836d4a17728cb597d647f92c941097'')"
    by (simp add: cache_key_square_plain square_key_named)
  have tp: "args_text [] square ([] @ PInt 4 # []) = Inr (lit ''9dd4e461268c8034f5c8564e155c67a6'' @ lit ''a87ff679a2f3e71d9181a67b7542122c'')"
    by (simp add: square_args_text)
  have sq: "length ([] :: pyval list) < length (fn_args_names square)"
      "fn_args_names square ! length ([] :: pyval list) \<notin> set []"
    by (simp_all add: square_def)
  have st: "length [PInt 4] < length (fn_args_names stamped)"
      "fn_args_names stamped ! length [PInt 4] \<in> set [lit ''timestamp'']"
    by (simp_all add: stamped_def)
  have f1: "filter (\<lambda>entry. fst entry \<notin> set []) (zip (fn_args_names square) [PInt 4])
          = [(lit ''x'', PInt 4)]"
    by (simp add: square_def)
  have f2: "dict_set reserved_name (PInt 0) (filter (\<lambda>entry. fst entry \<notin> set []) [])
          = [(reserved_name, PInt 0)]"
    by simp
  have f3: "filter (\<lambda>entry. fst entry \<notin> set []) (zip (fn_args_names square) []) = []"
    by simp
  have f4: "dict_set reserved_name (PInt 0) (filter (\<lambda>entry. fst entry \<notin> set []) [(lit ''x'', PInt 4)])
          = [(lit ''x'', PInt 4), (reserved_name, PInt 0)]"
    by (simp add: reserved_name_def x_not_reserved)
  have parts: "take 32 (lit ''467830e7a3c0acdc2dad7582d984c0bb'' @ lit ''aab55e58177f73981069d0d981dd92d6'' @ lit ''59836d4a17728cb597d647f92c941097'') = lit ''467830e7a3c0acdc2dad7582d984c0bb''" "take 32 (lit ''d41d8cd98f00b204e9800998ecf8427e'' @ lit ''df40f228cb24768489f229cfeceb214b'' @ lit ''59836d4a17728cb597d647f92c941097'') = lit ''d41d8cd98f00b204e9800998ecf8427e''"
      "take 32 (drop 32 (lit ''467830e7a3c0acdc2dad7582d984c0bb'' @ lit ''aab55e58177f73981069d0d981dd92d6'' @ lit ''59836d4a17728cb597d647f92c941097'')) = lit ''aab55e58177f73981069d0d981dd92d6''" "drop 64 (lit ''467830e7a3c0acdc2dad7582d984c0bb'' @ lit ''aab55e58177f73981069d0d981dd92d6'' @ lit ''59836d4a17728cb597d647f92c941097'') = lit ''59836d4a17728cb597d647f92c941097''"
    by (simp_all add: lit_def)
  note t1 = records_are_hashed_apart [where ign = "[]" and func = square and args = "[PInt 4]"
      and n = 0 and kwargs = "[]" and k = "lit ''467830e7a3c0acdc2dad7582d984c0bb'' @ lit ''aab55e58177f73981069d0d981dd92d6'' @ lit ''59836d4a17728cb597d647f92c941097''"
      and pre = "[]" and v = "PInt 4" and rest = "[]" and ?kwargs1.0 = "[]"
      and ?kwargs2.0 = "[(lit ''x'', PInt 4)]" and kp = "lit ''467830e7a3c0acdc2dad7582d984c0bb'' @ lit ''aab55e58177f73981069d0d981dd92d6'' @ lit ''59836d4a17728cb597d647f92c941097''" and kn = "lit ''d41d8cd98f00b204e9800998ecf8427e'' @ lit ''df40f228cb24768489f229cfeceb214b'' @ lit ''59836d4a17728cb597d647f92c941097''"
      and tp = "lit ''9dd4e461268c8034f5c8564e155c67a6'' @ lit ''a87ff679a2f3e71d9181a67b7542122c''" and tn = "[]"]
  note t2 = records_are_hashed_apart [where ign = "[]" and func = square and args = "[]"
      and n = 0 and kwargs = "[(lit ''x'', PInt 4)]" and k = "lit ''d41d8cd98f00b204e9800998ecf8427e'' @ lit ''df40f228cb24768489f229cfeceb214b'' @ lit ''59836d4a17728cb597d647f92c941097''"
      and pre = "[]" and v = "PInt 4" and rest = "[]" and ?kwargs1.0 = "[]"
      and ?kwargs2.0 = "[(lit ''x'', PInt 4)]" and kp = "lit ''467830e7a3c0acdc2dad7582d984c0bb'' @ lit ''aab55e58177f73981069d0d981dd92d6'' @ lit ''59836d4a17728cb597d647f92c941097''" and kn = "lit ''d41d8cd98f00b204e9800998ecf8427e'' @ lit ''df40f228cb24768489f229cfeceb214b'' @ lit ''59836d4a17728cb597d647f92c941097''"
      and tp = "lit ''9dd4e461268c8034f5c8564e155c67a6'' @ lit ''a87ff679a2f3e71d9181a67b7542122c''" and tn = "[]"]
  note t3 = records_are_hashed_apart [where ign = "[lit ''timestamp'']" and func = stamped and args = "[]"
      and n = 0 and kwargs = "[]" and k = "[]"
      and pre = "[PInt 4]" and v = "PInt 100" and rest = "[]" and ?kwargs1.0 = "[]"
      and ?kwargs2.0 = "[]" and kp = "[]" and kn = "[]" and tp = "[]" and tn = "[]"]
  have hyp: "length ([] :: pyval list) < length (fn_args_names square)
        \<and> fn_args_names square ! length ([] :: pyval list) \<notin> set []
        \<and> cache_key [] square ([] @ PInt 4 # []) 0 [] = Inr (lit ''467830e7a3c0acdc2dad7582d984c0bb'' @ lit ''aab55e58177f73981069d0d981dd92d6'' @ lit ''59836d4a17728cb597d647f92c941097'')
        \<and> cache_key [] square [] 0 [(lit ''x'', PInt 4)] = Inr (lit ''d41d8cd98f00b204e9800998ecf8427e'' @ lit ''df40f228cb24768489f229cfeceb214b'' @ lit ''59836d4a17728cb597d647f92c941097'')
        \<and> args_text [] square ([] @ PInt 4 # []) = Inr (lit ''9dd4e461268c8034f5c8564e155c67a6'' @ lit ''a87ff679a2f3e71d9181a67b7542122c'')
        \<and> args_text [] square [] = Inr []
        \<and> \<not> md5_collision (lit ''9dd4e461268c8034f5c8564e155c67a6'' @ lit ''a87ff679a2f3e71d9181a67b7542122c'') []"
    by (intro conjI sq kp kn tp square_args_text_empty no_collision_x_4_empty)
  have kp': "cache_key [] square [PInt 4] 0 [] = Inr (lit ''467830e7a3c0acdc2dad7582d984c0bb'' @ lit ''aab55e58177f73981069d0d981dd92d6'' @ lit ''59836d4a17728cb597d647f92c941097'')"
    using kp by simp
  note d = t1 [THEN conjunct2, THEN conjunct2, THEN conjunct2, THEN conjunct1, THEN mp, OF hyp]
  note sh = t1 [THEN conjunct2, THEN conjunct2, THEN conjunct1, THEN mp, OF kp']
  note r1 = t1 [THEN conjunct1, unfolded f1]
  note r2 = t1 [THEN conjunct2, THEN conjunct1, unfolded f2]
  note r3 = t2 [THEN conjunct1, unfolded f3]
  note r4 = t2 [THEN conjunct2, THEN conjunct1, unfolded f4]
  note ex = t3 [THEN conjunct2, THEN conjunct2, THEN conjunct2, THEN conjunct2, THEN mp,
      OF conjI [OF st]]
  have s1: "cache_key [lit ''timestamp''] stamped [PInt 4, PInt 100] 0 [] = Inr (lit ''467830e7a3c0acdc2dad7582d984c0bb'' @ lit ''aab55e58177f73981069d0d981dd92d6'' @ lit ''6be61460b957cb6d5321042ca7b51343'')"
    by (simp add: cache_key_stamped stamped_key)
  have s2: "cache_key [lit ''timestamp''] stamped [PInt 4] 0 [(lit ''timestamp'', PInt 100)] = Inr (lit ''467830e7a3c0acdc2dad7582d984c0bb'' @ lit ''aab55e58177f73981069d0d981dd92d6'' @ lit ''6be61460b957cb6d5321042ca7b51343'')"
    by (simp add: cache_key_stamped stamped_key_named)
  have ex': "cache_key [lit ''timestamp''] stamped [PInt 4, PInt 100] 0 []
       = cache_key [lit ''timestamp''] stamped [PInt 4] 0 [(lit ''timestamp'', PInt 100)]"
    using ex by (simp add: stamped_def)
  show ?thesis
    by (intro conjI sq kp' kn square_args_text square_args_text_empty no_collision_x_4_empty
          d [THEN conjunct1] d [THEN conjunct2, THEN conjunct1]
          d [THEN conjunct2, THEN conjunct2, THEN conjunct1]
          d [THEN conjunct2, THEN conjunct2, THEN conjunct2] parts r1 r2 r3 r4
          sh [THEN conjunct1] sh [THEN conjunct2, THEN conjunct1]
          sh [THEN conjunct2, THEN conjunct2, THEN conjunct1]
          sh [THEN conjunct2, THEN conjunct2, THEN conjunct2] st ex' s1 s2)
qed

end
